theory Spec2Isabelle
  imports Main
begin

section \<open>Data model of the call component (MediaControls.tsx)\<close>

text \<open>
  The component keeps its call state in React state cells and works on browser objects
  (media streams, tracks, peer connections) that it shares by reference. The state cells
  and the objects are fields of one record \<open>world\<close>; an object is named by its index in
  the list that stores its kind, so that two references to one object are two equal indices.

  A browser object is modelled by what the component asks of it: the calls are applied in
  the order the code makes them. The browser's own validity checks (a closed connection, a
  description in the wrong signalling state, a candidate before the remote description)
  are outside the repository and outside the model.
\<close>

type_synonym user_id = string
type_synonym track_id = nat
type_synonym stream_id = nat
type_synonym conn_id = nat
type_synonym candidate = nat

datatype kind = Audio | Video

text \<open>A MediaStreamTrack: \<open>ended\<close> is \<open>readyState = 'ended'\<close>; \<open>onended\<close> says whether the
  termination callback of the screen share (lines 184-187) is registered on the track.\<close>

record MediaStreamTrack =
  kind :: kind
  enabled :: bool
  ended :: bool
  onended :: bool

text \<open>Session descriptions are opaque: the offer or the answer a local connection
  generated, or a description received from a peer.\<close>

datatype sdp = OfferOf conn_id | AnswerOf conn_id | RemoteSdp nat

text \<open>An RTCPeerConnection: the tracks of its senders in \<open>getSenders()\<close> order, the two
  descriptions, the candidates handed to \<open>addIceCandidate\<close> in call order, whether
  \<open>close()\<close> was called, and the variables its two callbacks close over: the remote id
  (\<open>userId\<close>, \<open>payload.from\<close>), the local id (\<open>user?.id\<close>) and whether \<open>ontrack\<close> is the
  one of \<open>createPeerConnection\<close>, which writes to the session list.\<close>

record RTCPeerConnection =
  senders :: "track_id option list"
  localDescription :: "sdp option"
  remoteDescription :: "sdp option"
  iceCandidates :: "candidate list"
  isClosed :: bool
  remoteUser :: user_id
  localUser :: "user_id option"
  ontrackRegisters :: bool

text \<open>\<open>interface PeerConnection\<close> (lines 11-15): an entry of the session list.\<close>

record PeerConnection =
  userId :: user_id
  connection :: conn_id
  stream :: "stream_id option"

text \<open>\<open>interface RoomParticipant\<close>; only \<open>user_id\<close> and \<open>is_online\<close> matter here.\<close>

record RoomParticipant =
  user_id :: user_id
  is_online :: bool

text \<open>An incoming broadcast: the event name and the payload the handlers read.\<close>

datatype event = OfferEv | AnswerEv | IceCandidateEv

record payload =
  msg_to :: user_id
  msg_from :: user_id
  offer :: sdp
  answer :: sdp
  candidate :: "candidate option"

text \<open>An outgoing broadcast, as \<open>signalingChannel.current?.send\<close> is given it.\<close>

datatype signal = OfferSig sdp | AnswerSig sdp | CandidateSig candidate

record message =
  m_to :: user_id
  m_from :: "user_id option"
  m_signal :: signal

text \<open>The bindings one render of the component gives its handlers: a handler is a closure
  and reads \<open>localStream\<close>, \<open>peerConnections\<close> and the rest as they were in the render
  that created it, while a state setter writes to the current state.\<close>

record view =
  v_user :: "user_id option"
  v_participants :: "RoomParticipant list"
  v_isVideoOn :: bool
  v_isScreenSharing :: bool
  v_localStream :: "stream_id option"
  v_screenStream :: "stream_id option"
  v_peerConnections :: "PeerConnection list"

record world =
  roomId :: string
  participants :: "RoomParticipant list"
  user :: "user_id option"
  isInCall :: bool
  isMuted :: bool
  isVideoOn :: bool
  isScreenSharing :: bool
  localStream :: "stream_id option"
  screenStream :: "stream_id option"
  peerConnections :: "PeerConnection list"
  signalingChannel :: "string option"
  handlers :: "view option"
  tracks :: "MediaStreamTrack list"
  streams :: "track_id list list"
  conns :: "RTCPeerConnection list"
  sent :: "message list"

text \<open>The bindings of a render from the current props and state.\<close>

definition render :: "world \<Rightarrow> view" where
  "render w =
     \<lparr>v_user = user w, v_participants = participants w, v_isVideoOn = isVideoOn w,
      v_isScreenSharing = isScreenSharing w, v_localStream = localStream w,
      v_screenStream = screenStream w, v_peerConnections = peerConnections w\<rparr>"

section \<open>Browser objects\<close>

definition getTracks :: "world \<Rightarrow> stream_id \<Rightarrow> track_id list" where
  "getTracks w s = (if s < length (streams w) then streams w ! s else [])"

text \<open>\<open>track.kind\<close> of the track with a given index in the list of all tracks.\<close>

definition trackKind :: "MediaStreamTrack list \<Rightarrow> track_id \<Rightarrow> kind option" where
  "trackKind ts t = (if t < length ts then Some (kind (ts ! t)) else None)"

definition getAudioTracks :: "world \<Rightarrow> stream_id \<Rightarrow> track_id list" where
  "getAudioTracks w s = filter (\<lambda>t. trackKind (tracks w) t = Some Audio) (getTracks w s)"

definition getVideoTracks :: "world \<Rightarrow> stream_id \<Rightarrow> track_id list" where
  "getVideoTracks w s = filter (\<lambda>t. trackKind (tracks w) t = Some Video) (getTracks w s)"

definition updTrack :: "track_id \<Rightarrow> (MediaStreamTrack \<Rightarrow> MediaStreamTrack) \<Rightarrow> world \<Rightarrow> world" where
  "updTrack t f w = w\<lparr>tracks := (tracks w)[t := f (tracks w ! t)]\<rparr>"

definition updConn :: "conn_id \<Rightarrow> (RTCPeerConnection \<Rightarrow> RTCPeerConnection) \<Rightarrow> world \<Rightarrow> world" where
  "updConn c f w = w\<lparr>conns := (conns w)[c := f (conns w ! c)]\<rparr>"

text \<open>\<open>track.stop()\<close>; it fires no \<open>ended\<close> event.\<close>

definition stop :: "track_id \<Rightarrow> world \<Rightarrow> world" where
  "stop t = updTrack t (\<lambda>x. x\<lparr>ended := True\<rparr>)"

text \<open>\<open>stream.addTrack(track)\<close> does nothing when the stream has the track already.\<close>

definition streamAddTrack :: "stream_id \<Rightarrow> track_id \<Rightarrow> world \<Rightarrow> world" where
  "streamAddTrack s t w =
     (if t \<in> set (getTracks w s) then w
      else w\<lparr>streams := (streams w)[s := getTracks w s @ [t]]\<rparr>)"

definition streamRemoveTrack :: "stream_id \<Rightarrow> track_id \<Rightarrow> world \<Rightarrow> world" where
  "streamRemoveTrack s t w = w\<lparr>streams := (streams w)[s := removeAll t (getTracks w s)]\<rparr>"

text \<open>The stream a granted \<open>getUserMedia\<close> or \<open>getDisplayMedia\<close> returns: fresh live
  tracks of the kinds asked for. The result is the new stream and the new world.\<close>

definition newTrack :: "kind \<Rightarrow> MediaStreamTrack" where
  "newTrack k = \<lparr>kind = k, enabled = True, ended = False, onended = False\<rparr>"

definition mediaStream :: "kind list \<Rightarrow> world \<Rightarrow> stream_id \<times> world" where
  "mediaStream ks w =
     (length (streams w),
      w\<lparr>tracks := tracks w @ map newTrack ks,
        streams := streams w @ [[length (tracks w) ..< length (tracks w) + length ks]]\<rparr>)"

text \<open>\<open>new RTCPeerConnection(iceServers)\<close> with the callbacks the code sets on it.\<close>

definition newConnection :: "user_id \<Rightarrow> user_id option \<Rightarrow> bool \<Rightarrow> RTCPeerConnection" where
  "newConnection remote me reg =
     \<lparr>senders = [], localDescription = None, remoteDescription = None, iceCandidates = [],
      isClosed = False, remoteUser = remote, localUser = me, ontrackRegisters = reg\<rparr>"

definition pcAddTrack :: "conn_id \<Rightarrow> track_id \<Rightarrow> world \<Rightarrow> world" where
  "pcAddTrack c t = updConn c (\<lambda>pc. pc\<lparr>senders := senders pc @ [Some t]\<rparr>)"

definition setLocalDescription :: "conn_id \<Rightarrow> sdp \<Rightarrow> world \<Rightarrow> world" where
  "setLocalDescription c d = updConn c (\<lambda>pc. pc\<lparr>localDescription := Some d\<rparr>)"

definition setRemoteDescription :: "conn_id \<Rightarrow> sdp \<Rightarrow> world \<Rightarrow> world" where
  "setRemoteDescription c d = updConn c (\<lambda>pc. pc\<lparr>remoteDescription := Some d\<rparr>)"

definition addIceCandidate :: "conn_id \<Rightarrow> candidate \<Rightarrow> world \<Rightarrow> world" where
  "addIceCandidate c x = updConn c (\<lambda>pc. pc\<lparr>iceCandidates := iceCandidates pc @ [x]\<rparr>)"

definition close :: "conn_id \<Rightarrow> world \<Rightarrow> world" where
  "close c = updConn c (\<lambda>pc. pc\<lparr>isClosed := True\<rparr>)"

text \<open>\<open>getSenders().find((s) => s.track?.kind === 'video')\<close>: the position of the first
  sender whose track is a video track, if there is one.\<close>

fun findVideo :: "MediaStreamTrack list \<Rightarrow> track_id option list \<Rightarrow> nat option" where
  "findVideo ts [] = None"
| "findVideo ts (s # ss) =
     (if (case s of None \<Rightarrow> False | Some t \<Rightarrow> trackKind ts t = Some Video) then Some 0
      else map_option Suc (findVideo ts ss))"

definition videoSender :: "world \<Rightarrow> conn_id \<Rightarrow> nat option" where
  "videoSender w c =
     (if c < length (conns w) then findVideo (tracks w) (senders (conns w ! c)) else None)"

text \<open>\<open>sender.replaceTrack(track)\<close> on the sender at position \<open>i\<close>.\<close>

definition replaceTrack :: "conn_id \<Rightarrow> nat \<Rightarrow> track_id \<Rightarrow> world \<Rightarrow> world" where
  "replaceTrack c i t = updConn c (\<lambda>pc. pc\<lparr>senders := (senders pc)[i := Some t]\<rparr>)"

text \<open>\<open>signalingChannel.current?.send\<close>: nothing is sent while the ref is null.\<close>

definition send :: "message \<Rightarrow> world \<Rightarrow> world" where
  "send m w = (if signalingChannel w = None then w else w\<lparr>sent := sent w @ [m]\<rparr>)"

section \<open>The handlers of MediaControls\<close>

text \<open>
  Every handler takes the bindings \<open>v\<close> of the render that created it and the current
  world. An \<open>async\<close> handler is taken as one step: no other event is interleaved at its
  \<open>await\<close> points. A media request that the code wraps in \<open>try\<close>/\<open>catch\<close> has its
  outcome as an argument; the \<open>catch\<close> branch only logs and alerts. What a handler does to
  the video elements (\<open>localVideoRef\<close>, \<open>remoteVideosRef\<close>) is rendering and is left out.
\<close>

text \<open>\<open>createPeerConnection\<close> (lines 216-277). The last step is the functional update of
  lines 272-276, applied to the current session list.\<close>

definition createPeerConnection :: "view \<Rightarrow> user_id \<Rightarrow> stream_id \<Rightarrow> bool \<Rightarrow> world \<Rightarrow> world" where
  "createPeerConnection v uid s initiator w =
     (let pc = length (conns w);
          w1 = w\<lparr>conns := conns w @ [newConnection uid (v_user v) True]\<rparr>;
          w2 = fold (pcAddTrack pc) (getTracks w1 s) w1;
          w3 = (if initiator
                then send \<lparr>m_to = uid, m_from = v_user v, m_signal = OfferSig (OfferOf pc)\<rparr>
                       (setLocalDescription pc (OfferOf pc) w2)
                else w2)
      in w3\<lparr>peerConnections :=
              (if \<exists>p \<in> set (peerConnections w3). userId p = uid then peerConnections w3
               else peerConnections w3 @ [\<lparr>userId = uid, connection = pc, stream = None\<rparr>])\<rparr>)"

text \<open>\<open>startCall\<close> (lines 66-86); \<open>granted\<close> is whether \<open>getUserMedia\<close> resolved. The
  calls of \<open>createPeerConnection\<close> are not awaited; they are taken in the order of the
  \<open>forEach\<close>.\<close>

definition startCall :: "view \<Rightarrow> bool \<Rightarrow> world \<Rightarrow> world" where
  "startCall v granted w =
     (if \<not> granted then w
      else
        (let (s, w1) = mediaStream [Audio] w;
             w2 = w1\<lparr>localStream := Some s, isInCall := True, isMuted := False\<rparr>
         in fold (\<lambda>p w'. if Some (user_id p) \<noteq> v_user v
                          then createPeerConnection v (user_id p) s True w' else w')
              (v_participants v) w2))"

text \<open>\<open>endCall\<close> (lines 88-108).\<close>

definition endCall :: "view \<Rightarrow> world \<Rightarrow> world" where
  "endCall v w =
     (let w1 = (case v_localStream v of None \<Rightarrow> w
                | Some s \<Rightarrow> (fold stop (getTracks w s) w)\<lparr>localStream := None\<rparr>);
          w2 = (case v_screenStream v of None \<Rightarrow> w1
                | Some s \<Rightarrow> (fold stop (getTracks w1 s) w1)\<lparr>screenStream := None\<rparr>);
          w3 = fold (\<lambda>pc. close (connection pc)) (v_peerConnections v) w2
      in w3\<lparr>peerConnections := [], isInCall := False, isMuted := False,
            isVideoOn := False, isScreenSharing := False\<rparr>)"

text \<open>\<open>toggleMute\<close> (lines 110-118).\<close>

definition toggleMute :: "view \<Rightarrow> world \<Rightarrow> world" where
  "toggleMute v w =
     (case v_localStream v of None \<Rightarrow> w
      | Some s \<Rightarrow>
          (case getAudioTracks w s of [] \<Rightarrow> w
           | audioTrack # _ \<Rightarrow>
               (let w1 = updTrack audioTrack (\<lambda>x. x\<lparr>enabled := \<not> enabled x\<rparr>) w
                in w1\<lparr>isMuted := \<not> enabled (tracks w1 ! audioTrack)\<rparr>)))"

text \<open>\<open>toggleVideo\<close> (lines 120-158); \<open>granted\<close> is whether \<open>getUserMedia\<close> resolved.\<close>

definition toggleVideo :: "view \<Rightarrow> bool \<Rightarrow> world \<Rightarrow> world" where
  "toggleVideo v granted w =
     (if \<not> v_isVideoOn v then
        (if \<not> granted then w
         else
           (let (videoStream, w1) = mediaStream [Video] w
            in case getVideoTracks w1 videoStream of [] \<Rightarrow> w1
               | videoTrack # _ \<Rightarrow>
                   (let w2 = (case v_localStream v of
                                Some ls \<Rightarrow> streamAddTrack ls videoTrack w1
                              | None \<Rightarrow> w1\<lparr>localStream := Some videoStream\<rparr>);
                        w3 = fold (\<lambda>pc. pcAddTrack (connection pc) videoTrack)
                               (v_peerConnections v) w2
                    in w3\<lparr>isVideoOn := True\<rparr>)))
      else
        (let w1 = (case v_localStream v of None \<Rightarrow> w
                   | Some ls \<Rightarrow>
                       fold (\<lambda>t w'. streamRemoveTrack ls t (stop t w')) (getVideoTracks w ls) w)
         in w1\<lparr>isVideoOn := False\<rparr>))"

text \<open>\<open>toggleScreenShare\<close> (lines 160-214); \<open>result\<close> is \<open>None\<close> when \<open>getDisplayMedia\<close>
  rejected and \<open>Some a\<close> when it resolved, \<open>a\<close> saying whether the capture has an audio
  track beside its video track. The \<open>[]\<close> case of the first video track cannot happen:
  a display capture always has a video track.\<close>

definition swapOrAdd :: "track_id \<Rightarrow> PeerConnection \<Rightarrow> world \<Rightarrow> world" where
  "swapOrAdd videoTrack pc w =
     (case videoSender w (connection pc) of
        Some sender \<Rightarrow> replaceTrack (connection pc) sender videoTrack w
      | None \<Rightarrow> pcAddTrack (connection pc) videoTrack w)"

definition restore :: "track_id option \<Rightarrow> PeerConnection \<Rightarrow> world \<Rightarrow> world" where
  "restore videoTrack pc w =
     (case (videoSender w (connection pc), videoTrack) of
        (Some sender, Some t) \<Rightarrow> replaceTrack (connection pc) sender t w
      | _ \<Rightarrow> w)"

definition firstOf :: "'a list \<Rightarrow> 'a option" where
  "firstOf xs = (case xs of [] \<Rightarrow> None | x # _ \<Rightarrow> Some x)"

definition toggleScreenShare :: "view \<Rightarrow> bool option \<Rightarrow> world \<Rightarrow> world" where
  "toggleScreenShare v result w =
     (if \<not> v_isScreenSharing v then
        (case result of None \<Rightarrow> w
         | Some withAudio \<Rightarrow>
             (let (s, w1) = mediaStream (Video # (if withAudio then [Audio] else [])) w;
                  w2 = w1\<lparr>screenStream := Some s\<rparr>
              in case getVideoTracks w2 s of [] \<Rightarrow> w2
                 | videoTrack # _ \<Rightarrow>
                     (let w3 = fold (swapOrAdd videoTrack) (v_peerConnections v) w2;
                          w4 = updTrack videoTrack (\<lambda>x. x\<lparr>onended := True\<rparr>) w3
                      in w4\<lparr>isScreenSharing := True\<rparr>)))
      else
        (let w1 = (case v_screenStream v of None \<Rightarrow> w
                   | Some s \<Rightarrow> (fold stop (getTracks w s) w)\<lparr>screenStream := None\<rparr>);
             w2 = (case v_localStream v of None \<Rightarrow> w1
                   | Some ls \<Rightarrow>
                       if v_isVideoOn v
                       then fold (restore (firstOf (getVideoTracks w1 ls))) (v_peerConnections v) w1
                       else w1)
         in w2\<lparr>isScreenSharing := False\<rparr>))"

text \<open>The callback registered at lines 184-187, run when the browser ends the screen
  track because the user stopped sharing in the browser's own interface.\<close>

definition screenEnded :: "world \<Rightarrow> world" where
  "screenEnded w = w\<lparr>isScreenSharing := False, screenStream := None\<rparr>"

definition trackEndedByBrowser :: "track_id \<Rightarrow> world \<Rightarrow> world" where
  "trackEndedByBrowser t w =
     (let w1 = updTrack t (\<lambda>x. x\<lparr>ended := True\<rparr>) w
      in if t < length (tracks w) \<and> onended (tracks w ! t) then screenEnded w1 else w1)"

text \<open>\<open>handleOffer\<close> (lines 279-324).\<close>

definition handleOffer :: "view \<Rightarrow> payload \<Rightarrow> world \<Rightarrow> world" where
  "handleOffer v p w =
     (case v_localStream v of None \<Rightarrow> w
      | Some ls \<Rightarrow>
          (let pc = length (conns w);
               w1 = w\<lparr>conns := conns w @ [newConnection (msg_from p) (v_user v) False]\<rparr>;
               w2 = fold (pcAddTrack pc) (getTracks w1 ls) w1;
               w3 = setRemoteDescription pc (offer p) w2;
               w4 = setLocalDescription pc (AnswerOf pc) w3;
               w5 = send \<lparr>m_to = msg_from p, m_from = v_user v,
                          m_signal = AnswerSig (AnswerOf pc)\<rparr> w4
           in w5\<lparr>peerConnections :=
                   peerConnections w5 @ [\<lparr>userId = msg_from p, connection = pc, stream = None\<rparr>]\<rparr>))"

text \<open>\<open>handleAnswer\<close> (lines 326-333) and \<open>handleIceCandidate\<close> (lines 335-342).\<close>

definition handleAnswer :: "view \<Rightarrow> payload \<Rightarrow> world \<Rightarrow> world" where
  "handleAnswer v p w =
     (case find (\<lambda>pc. userId pc = msg_from p) (v_peerConnections v) of
        Some peerConnection \<Rightarrow> setRemoteDescription (connection peerConnection) (answer p) w
      | None \<Rightarrow> w)"

definition handleIceCandidate :: "view \<Rightarrow> payload \<Rightarrow> world \<Rightarrow> world" where
  "handleIceCandidate v p w =
     (case (find (\<lambda>pc. userId pc = msg_from p) (v_peerConnections v), candidate p) of
        (Some peerConnection, Some c) \<Rightarrow> addIceCandidate (connection peerConnection) c w
      | _ \<Rightarrow> w)"

text \<open>The callbacks a connection carries. \<open>onicecandidate\<close> (lines 227-239, 288-300)
  sends each gathered candidate to the remote id. \<open>ontrack\<close> of \<open>createPeerConnection\<close>
  (lines 241-255) records the remote stream in the session list; the one of
  \<open>handleOffer\<close> (lines 302-307) only feeds the video element. The assignment
  \<open>existing.stream = ...\<close> is made to the entry of the current list; the copy of that
  entry in a view captured earlier keeps its \<open>stream\<close>, which no handler reads (lemma
  \<open>handlers_ignore_stream\<close>).\<close>

definition onicecandidate :: "conn_id \<Rightarrow> candidate option \<Rightarrow> world \<Rightarrow> world" where
  "onicecandidate c ev w =
     (case ev of None \<Rightarrow> w
      | Some x \<Rightarrow>
          if c < length (conns w)
          then send \<lparr>m_to = remoteUser (conns w ! c), m_from = localUser (conns w ! c),
                     m_signal = CandidateSig x\<rparr> w
          else w)"

fun setStream :: "user_id \<Rightarrow> stream_id option \<Rightarrow> PeerConnection list \<Rightarrow> PeerConnection list" where
  "setStream uid st [] = []"
| "setStream uid st (p # ps) =
     (if userId p = uid then p\<lparr>stream := st\<rparr> # ps else p # setStream uid st ps)"

definition ontrack :: "conn_id \<Rightarrow> stream_id option \<Rightarrow> world \<Rightarrow> world" where
  "ontrack c st w =
     (if c < length (conns w) \<and> ontrackRegisters (conns w ! c)
      then (let uid = remoteUser (conns w ! c)
            in w\<lparr>peerConnections :=
                   (if \<exists>p \<in> set (peerConnections w). userId p = uid
                    then setStream uid st (peerConnections w)
                    else peerConnections w @ [\<lparr>userId = uid, connection = c, stream = st\<rparr>])\<rparr>)
      else w)"

section \<open>The component: subscription and renders\<close>

text \<open>The effect of lines 38-64 subscribes the three handlers of the render it runs in;
  it runs again only when \<open>roomId\<close> or \<open>user\<close> changes. Its cleanup removes the channel
  (and with it the callbacks) and leaves the ref as it is. React compares \<open>user\<close> by
  identity; \<open>rerender\<close> compares the ids, and a render with a new \<open>user\<close> object of the
  same id is the cleanup followed by the effect, \<open>subscribe (cleanup w)\<close>.\<close>

definition subscribe :: "world \<Rightarrow> world" where
  "subscribe w =
     (if user w = None \<or> roomId w = [] then w
      else w\<lparr>signalingChannel := Some (''webrtc_'' @ roomId w), handlers := Some (render w)\<rparr>)"

definition cleanup :: "world \<Rightarrow> world" where
  "cleanup w = w\<lparr>handlers := None\<rparr>"

definition rerender :: "string \<Rightarrow> user_id option \<Rightarrow> RoomParticipant list \<Rightarrow> world \<Rightarrow> world" where
  "rerender r u ps w =
     (let w1 = w\<lparr>roomId := r, user := u, participants := ps\<rparr>
      in if r = roomId w \<and> u = user w then w1 else subscribe (cleanup w1))"

text \<open>The first render: the initial values of the state cells (lines 18-24), then the
  effect.\<close>

definition mount :: "string \<Rightarrow> user_id option \<Rightarrow> RoomParticipant list \<Rightarrow> world" where
  "mount r u ps =
     subscribe
       \<lparr>roomId = r, participants = ps, user = u, isInCall = False, isMuted = False,
        isVideoOn = False, isScreenSharing = False, localStream = None, screenStream = None,
        peerConnections = [], signalingChannel = None, handlers = None,
        tracks = [], streams = [], conns = [], sent = []\<rparr>"

text \<open>A roster snapshot: \<open>loadParticipants\<close> of ChatRoom.tsx (lines 122-135) selects the
  online rows of the room and hands them to the component as its \<open>participants\<close> prop.\<close>

definition loadParticipants :: "RoomParticipant list \<Rightarrow> world \<Rightarrow> world" where
  "loadParticipants rows w = rerender (roomId w) (user w) (filter is_online rows) w"

text \<open>The three broadcast callbacks of lines 42-56: a payload for another recipient is
  dropped before any handler runs.\<close>

definition onBroadcast :: "event \<Rightarrow> payload \<Rightarrow> world \<Rightarrow> world" where
  "onBroadcast ev p w =
     (case handlers w of None \<Rightarrow> w
      | Some v \<Rightarrow>
          if Some (msg_to p) = v_user v
          then (case ev of
                  OfferEv \<Rightarrow> handleOffer v p w
                | AnswerEv \<Rightarrow> handleAnswer v p w
                | IceCandidateEv \<Rightarrow> handleIceCandidate v p w)
          else w)"

text \<open>
  The worlds the component can be in: the first render, then any sequence of renders with
  new props, clicks on the buttons the render shows (\<open>Join Call\<close> while \<open>isInCall\<close>
  is false, the four call buttons while it is true, lines 348-402; a click runs the
  handler of the current render), broadcasts, and callbacks of the browser.
\<close>

inductive reachable :: "world \<Rightarrow> bool" where
  mounted: "reachable (mount r u ps)"
| rerendered: "reachable w \<Longrightarrow> reachable (rerender r u ps w)"
| resubscribed: "reachable w \<Longrightarrow> reachable (subscribe (cleanup w))"
| joined: "reachable w \<Longrightarrow> \<not> isInCall w \<Longrightarrow> reachable (startCall (render w) granted w)"
| hungUp: "reachable w \<Longrightarrow> isInCall w \<Longrightarrow> reachable (endCall (render w) w)"
| muteToggled: "reachable w \<Longrightarrow> isInCall w \<Longrightarrow> reachable (toggleMute (render w) w)"
| videoToggled: "reachable w \<Longrightarrow> isInCall w \<Longrightarrow> reachable (toggleVideo (render w) granted w)"
| shareToggled:
    "reachable w \<Longrightarrow> isInCall w \<Longrightarrow> reachable (toggleScreenShare (render w) result w)"
| received: "reachable w \<Longrightarrow> reachable (onBroadcast ev p w)"
| candidateGathered: "reachable w \<Longrightarrow> reachable (onicecandidate c x w)"
| trackArrived: "reachable w \<Longrightarrow> reachable (ontrack c st w)"
| trackEnded: "reachable w \<Longrightarrow> reachable (trackEndedByBrowser t w)"

section \<open>Vocabulary of the statements\<close>

text \<open>
  The controller is idle when its state cells have the values of the first render
  (lines 18-24); \<open>endCall\<close> writes the same values. The tracks the component holds are
  those of its local stream and of its screen stream.
\<close>

definition idle :: "world \<Rightarrow> bool" where
  "idle w = (\<not> isInCall w \<and> \<not> isMuted w \<and> \<not> isVideoOn w \<and> \<not> isScreenSharing w \<and>
     localStream w = None \<and> screenStream w = None \<and> peerConnections w = [])"

definition heldTracks :: "world \<Rightarrow> track_id list" where
  "heldTracks w =
     (case localStream w of None \<Rightarrow> [] | Some s \<Rightarrow> getTracks w s) @
     (case screenStream w of None \<Rightarrow> [] | Some s \<Rightarrow> getTracks w s)"

text \<open>A click on the screen-share button: the handler of the current render runs.\<close>

abbreviation clickShare :: "bool option \<Rightarrow> world \<Rightarrow> world" where
  "clickShare result w \<equiv> toggleScreenShare (render w) result w"

text \<open>
  The participants \<open>startCall\<close> connects to: the \<open>user_id\<close> of every entry of
  the \<open>participants\<close> prop that is not the local user's (line 78), in the order of the
  prop. The connection, the offer and the session entry that \<open>createPeerConnection\<close>
  makes as initiator for the pair of a fresh connection index and a remote id.
\<close>

definition others :: "world \<Rightarrow> user_id list" where
  "others w = filter (\<lambda>u. Some u \<noteq> user w) (map user_id (participants w))"

definition offerConnection :: "track_id list \<Rightarrow> user_id option \<Rightarrow> conn_id \<times> user_id \<Rightarrow> RTCPeerConnection" where
  "offerConnection ts me = (\<lambda>(c, u).
     \<lparr>senders = map Some ts, localDescription = Some (OfferOf c), remoteDescription = None,
      iceCandidates = [], isClosed = False, remoteUser = u, localUser = me,
      ontrackRegisters = True\<rparr>)"

definition offerMessage :: "user_id option \<Rightarrow> conn_id \<times> user_id \<Rightarrow> message" where
  "offerMessage me = (\<lambda>(c, u). \<lparr>m_to = u, m_from = me, m_signal = OfferSig (OfferOf c)\<rparr>)"

definition newSession :: "conn_id \<times> user_id \<Rightarrow> PeerConnection" where
  "newSession = (\<lambda>(c, u). \<lparr>userId = u, connection = c, stream = None\<rparr>)"

text \<open>
  Every reference of a world names an object that exists: a track of a stream or of a
  sender, the connection of a session, the two streams of the state. JavaScript references
  cannot dangle; indices can, so statements that follow a reference assume this.
\<close>

definition sendersInRange :: "MediaStreamTrack list \<Rightarrow> track_id option list \<Rightarrow> bool" where
  "sendersInRange ts ss = list_all (\<lambda>s. case s of None \<Rightarrow> True | Some t \<Rightarrow> t < length ts) ss"

definition wellFormed :: "world \<Rightarrow> bool" where
  "wellFormed w =
     (list_all (list_all (\<lambda>t. t < length (tracks w))) (streams w) \<and>
      list_all (\<lambda>pc. sendersInRange (tracks w) (senders pc)) (conns w) \<and>
      list_all (\<lambda>pc. connection pc < length (conns w)) (peerConnections w) \<and>
      (case localStream w of None \<Rightarrow> True | Some s \<Rightarrow> s < length (streams w)) \<and>
      (case screenStream w of None \<Rightarrow> True | Some s \<Rightarrow> s < length (streams w)))"

text \<open>
  Three functions on lists that the proofs use to describe a \<open>forEach\<close> in closed
  form: \<open>applyAt f ks xs\<close> applies \<open>f\<close> at the positions \<open>ks\<close> in turn;
  \<open>swapS\<close> and \<open>restoreS\<close> are what the two loops of \<open>toggleScreenShare\<close> do to
  the sender list of one connection.
\<close>

definition applyAt :: "('a \<Rightarrow> 'a) \<Rightarrow> nat list \<Rightarrow> 'a list \<Rightarrow> 'a list" where
  "applyAt f ks xs = fold (\<lambda>i ys. ys[i := f (ys ! i)]) ks xs"

definition swapS :: "MediaStreamTrack list \<Rightarrow> track_id \<Rightarrow> track_id option list \<Rightarrow> track_id option list" where
  "swapS ts t ss = (case findVideo ts ss of Some i \<Rightarrow> ss[i := Some t] | None \<Rightarrow> ss @ [Some t])"

definition restoreS :: "MediaStreamTrack list \<Rightarrow> track_id \<Rightarrow> track_id option list \<Rightarrow> track_id option list" where
  "restoreS ts t ss = (case findVideo ts ss of Some i \<Rightarrow> ss[i := Some t] | None \<Rightarrow> ss)"

section \<open>Example worlds\<close>

text \<open>
  Alice opens room \<open>r1\<close> while Bob is online in it, joins the call, turns her camera
  on and shares her screen with system audio. \<open>aliceView\<close> is the render the
  subscription of the first render captured.
\<close>

definition alice :: RoomParticipant where "alice = \<lparr>user_id = ''alice'', is_online = True\<rparr>"

definition bob :: RoomParticipant where "bob = \<lparr>user_id = ''bob'', is_online = True\<rparr>"

definition bobOffline :: RoomParticipant where "bobOffline = \<lparr>user_id = ''bob'', is_online = False\<rparr>"

definition aliceView :: view where
  "aliceView = \<lparr>v_user = Some ''alice'', v_participants = [alice, bob], v_isVideoOn = False,
     v_isScreenSharing = False, v_localStream = None, v_screenStream = None,
     v_peerConnections = []\<rparr>"

definition lobby :: world where "lobby = mount ''r1'' (Some ''alice'') [alice, bob]"

definition inCall :: world where "inCall = startCall (render lobby) True lobby"

definition withCamera :: world where "withCamera = toggleVideo (render inCall) True inCall"

definition sharing :: world where "sharing = toggleScreenShare (render withCamera) (Some True) withCamera"

text \<open>
  Alice switches to room \<open>r2\<close> during the call, so the effect subscribes again with the
  bindings of that render, and then hangs up.
\<close>

definition switched :: world where
  "switched = rerender ''r2'' (Some ''alice'') [alice, bob] inCall"

definition afterCall :: world where
  "afterCall = endCall (render switched) switched"


text \<open>
  Envelopes: one for another recipient, one from a participant without a session, an
  offer from Bob and one from Carol, candidates from Carol and from Bob, and an answer
  from Bob.
\<close>

definition toCarol :: payload where
  "toCarol = \<lparr>msg_to = ''carol'', msg_from = ''bob'', offer = RemoteSdp 1, answer = RemoteSdp 2,
     candidate = Some 7\<rparr>"

definition fromDave :: payload where
  "fromDave = \<lparr>msg_to = ''alice'', msg_from = ''dave'', offer = RemoteSdp 3, answer = RemoteSdp 4,
     candidate = Some 8\<rparr>"

definition bobOffer :: payload where
  "bobOffer = \<lparr>msg_to = ''alice'', msg_from = ''bob'', offer = RemoteSdp 1, answer = RemoteSdp 0,
     candidate = None\<rparr>"

definition carolOffer :: payload where
  "carolOffer = \<lparr>msg_to = ''alice'', msg_from = ''carol'', offer = RemoteSdp 5,
     answer = RemoteSdp 0, candidate = None\<rparr>"

definition earlyCandidate :: payload where
  "earlyCandidate = \<lparr>msg_to = ''alice'', msg_from = ''carol'', offer = RemoteSdp 0,
     answer = RemoteSdp 0, candidate = Some 7\<rparr>"

definition bobCandidate :: "candidate option \<Rightarrow> payload" where
  "bobCandidate c = \<lparr>msg_to = ''alice'', msg_from = ''bob'', offer = RemoteSdp 0,
     answer = RemoteSdp 0, candidate = c\<rparr>"

definition bobAnswer :: payload where
  "bobAnswer = \<lparr>msg_to = ''alice'', msg_from = ''bob'', offer = RemoteSdp 0, answer = RemoteSdp 9,
     candidate = None\<rparr>"

section \<open>Auxiliary facts\<close>

lemmas browser_defs = getTracks_def trackKind_def getAudioTracks_def getVideoTracks_def
  updTrack_def updConn_def stop_def streamAddTrack_def streamRemoveTrack_def newTrack_def
  mediaStream_def newConnection_def pcAddTrack_def setLocalDescription_def
  setRemoteDescription_def addIceCandidate_def close_def videoSender_def replaceTrack_def
  send_def

lemma audio_in_range: "getAudioTracks w s = a # as \<Longrightarrow> a < length (tracks w)"
proof -
  assume "getAudioTracks w s = a # as"
  then have "a \<in> set (getAudioTracks w s)" by simp
  then have "trackKind (tracks w) a = Some Audio" by (simp add: getAudioTracks_def)
  then show ?thesis by (simp add: trackKind_def split: if_splits)
qed

lemma render_sel:
  "v_user (render w) = user w" "v_participants (render w) = participants w"
  "v_isVideoOn (render w) = isVideoOn w" "v_isScreenSharing (render w) = isScreenSharing w"
  "v_localStream (render w) = localStream w" "v_screenStream (render w) = screenStream w"
  "v_peerConnections (render w) = peerConnections w"
  by (simp_all add: render_def)

subsection \<open>The example worlds, evaluated\<close>

lemma lobby_eq:
  "lobby = \<lparr>roomId = ''r1'', participants = [alice, bob], user = Some ''alice'',
     isInCall = False, isMuted = False, isVideoOn = False, isScreenSharing = False,
     localStream = None, screenStream = None, peerConnections = [],
     signalingChannel = Some ''webrtc_r1'', handlers = Some aliceView,
     tracks = [], streams = [], conns = [], sent = []\<rparr>"
  by (simp add: lobby_def mount_def subscribe_def render_def aliceView_def)

lemma inCall_eq:
  "inCall = \<lparr>roomId = ''r1'', participants = [alice, bob], user = Some ''alice'',
     isInCall = True, isMuted = False, isVideoOn = False, isScreenSharing = False,
     localStream = Some 0, screenStream = None,
     peerConnections = [\<lparr>userId = ''bob'', connection = 0, stream = None\<rparr>],
     signalingChannel = Some ''webrtc_r1'', handlers = Some aliceView,
     tracks = [\<lparr>kind = Audio, enabled = True, ended = False, onended = False\<rparr>],
     streams = [[0]],
     conns = [\<lparr>senders = [Some 0], localDescription = Some (OfferOf 0),
        remoteDescription = None, iceCandidates = [], isClosed = False,
        remoteUser = ''bob'', localUser = Some ''alice'', ontrackRegisters = True\<rparr>],
     sent = [\<lparr>m_to = ''bob'', m_from = Some ''alice'', m_signal = OfferSig (OfferOf 0)\<rparr>]\<rparr>"
  by (simp add: inCall_def lobby_eq startCall_def render_def createPeerConnection_def
      browser_defs alice_def bob_def Let_def)

lemma withCamera_eq:
  "withCamera = inCall\<lparr>isVideoOn := True, tracks := [newTrack Audio, newTrack Video],
     streams := [[0, 1], [1]],
     conns := [\<lparr>senders = [Some 0, Some 1], localDescription = Some (OfferOf 0),
        remoteDescription = None, iceCandidates = [], isClosed = False,
        remoteUser = ''bob'', localUser = Some ''alice'', ontrackRegisters = True\<rparr>]\<rparr>"
  by (simp add: withCamera_def inCall_eq toggleVideo_def render_def browser_defs Let_def)

lemma sharing_eq:
  "sharing = withCamera\<lparr>isScreenSharing := True, screenStream := Some 2,
     tracks := [newTrack Audio, newTrack Video, (newTrack Video)\<lparr>onended := True\<rparr>, newTrack Audio],
     streams := [[0, 1], [1], [2, 3]],
     conns := [\<lparr>senders = [Some 0, Some 2], localDescription = Some (OfferOf 0),
        remoteDescription = None, iceCandidates = [], isClosed = False,
        remoteUser = ''bob'', localUser = Some ''alice'', ontrackRegisters = True\<rparr>]\<rparr>"
  by (simp add: sharing_def withCamera_eq inCall_eq toggleScreenShare_def swapOrAdd_def
      render_def browser_defs Let_def)

lemma switched_eq:
  "switched = inCall\<lparr>roomId := ''r2'', signalingChannel := Some ''webrtc_r2'',
     handlers := Some (aliceView\<lparr>v_localStream := Some 0,
        v_peerConnections := [\<lparr>userId = ''bob'', connection = 0, stream = None\<rparr>]\<rparr>)\<rparr>"
  by (simp add: switched_def rerender_def subscribe_def cleanup_def render_def inCall_eq
      aliceView_def)

lemma afterCall_eq:
  "afterCall = switched\<lparr>isInCall := False, localStream := None, peerConnections := [],
     tracks := [(newTrack Audio)\<lparr>ended := True\<rparr>],
     conns := [\<lparr>senders = [Some 0], localDescription = Some (OfferOf 0),
        remoteDescription = None, iceCandidates = [], isClosed = True,
        remoteUser = ''bob'', localUser = Some ''alice'', ontrackRegisters = True\<rparr>]\<rparr>"
  by (simp add: afterCall_def switched_eq inCall_eq endCall_def render_def browser_defs Let_def)

subsection \<open>Updates at positions\<close>

lemma applyAt_Nil [simp]: "applyAt f [] xs = xs"
  by (simp add: applyAt_def)

lemma applyAt_Cons [simp]: "applyAt f (i # ks) xs = applyAt f ks (xs[i := f (xs ! i)])"
  by (simp add: applyAt_def)

lemma applyAt_append: "applyAt f (ks @ js) xs = applyAt f js (applyAt f ks xs)"
  by (simp add: applyAt_def)

lemma length_applyAt [simp]: "length (applyAt f ks xs) = length xs"
  by (induction ks arbitrary: xs) simp_all

lemma nth_applyAt:
  assumes idem: "\<And>x. f (f x) = f x"
  shows "k < length xs \<Longrightarrow>
    applyAt f ks xs ! k = (if k \<in> set ks then f (xs ! k) else xs ! k)"
proof (induction ks arbitrary: xs)
  case Nil
  show ?case by simp
next
  case (Cons i ks)
  have l: "k < length (xs[i := f (xs ! i)])" using Cons.prems by simp
  have "applyAt f (i # ks) xs ! k = applyAt f ks (xs[i := f (xs ! i)]) ! k" by simp
  also have "\<dots> = (if k \<in> set ks then f (xs[i := f (xs ! i)] ! k) else xs[i := f (xs ! i)] ! k)"
    by (rule Cons.IH [OF l])
  also have "\<dots> = (if k \<in> set (i # ks) then f (xs ! k) else xs ! k)"
    using Cons.prems by (cases "i = k") (simp_all add: idem)
  finally show ?case .
qed

lemma updConn_twice:
  "updConn c g (updConn c f w) = updConn c (g \<circ> f) w"
  by (cases "c < length (conns w)") (simp_all add: updConn_def list_update_beyond)

lemma updConn_id: "(\<And>x. f x = x) \<Longrightarrow> updConn c f w = w"
  by (simp add: updConn_def)

lemma fold_updTrack:
  "fold (\<lambda>t. updTrack t f) ts w = w\<lparr>tracks := applyAt f ts (tracks w)\<rparr>"
  by (induction ts arbitrary: w) (simp_all add: updTrack_def)

lemma fold_stop:
  "fold stop ts w = w\<lparr>tracks := applyAt (\<lambda>x. x\<lparr>ended := True\<rparr>) ts (tracks w)\<rparr>"
  using fold_updTrack [of "\<lambda>x. x\<lparr>ended := True\<rparr>" ts w] by (simp add: stop_def [abs_def])

lemma fold_updConn:
  "fold (\<lambda>pc. updConn (connection pc) f) pcs w =
     w\<lparr>conns := applyAt f (map connection pcs) (conns w)\<rparr>"
  by (induction pcs arbitrary: w) (simp_all add: updConn_def)

lemma fold_close:
  "fold (\<lambda>pc. close (connection pc)) pcs w =
     w\<lparr>conns := applyAt (\<lambda>x. x\<lparr>isClosed := True\<rparr>) (map connection pcs) (conns w)\<rparr>"
  using fold_updConn [of "\<lambda>x. x\<lparr>isClosed := True\<rparr>" pcs w] by (simp add: close_def)

lemma fold_pcAddTrack:
  "c < length (conns w) \<Longrightarrow>
   fold (pcAddTrack c) ts w =
     w\<lparr>conns := (conns w)[c := (conns w ! c)\<lparr>senders := senders (conns w ! c) @ map Some ts\<rparr>]\<rparr>"
proof (induction ts arbitrary: w)
  case Nil
  then show ?case by simp
next
  case (Cons t ts)
  have l: "c < length (conns (pcAddTrack c t w))"
    using Cons.prems by (simp add: pcAddTrack_def updConn_def)
  show ?case
    using Cons.prems by (simp add: Cons.IH [OF l]) (simp add: pcAddTrack_def updConn_def)
qed

subsection \<open>Kinds of tracks and the first video sender\<close>

lemma findVideo_bound: "findVideo ts ss = Some i \<Longrightarrow> i < length ss"
  by (induction ss arbitrary: i) (auto split: if_splits)

lemma findVideo_update:
  "findVideo ts ss = Some i \<Longrightarrow> trackKind ts t = Some Video \<Longrightarrow>
   findVideo ts (ss[i := Some t]) = Some i"
  by (induction ss arbitrary: i) (auto split: if_splits)

lemma findVideo_append:
  "findVideo ts ss = None \<Longrightarrow> trackKind ts t = Some Video \<Longrightarrow>
   findVideo ts (ss @ [Some t]) = Some (length ss)"
  by (induction ss) (auto split: if_splits)

lemma swapS_idem:
  "trackKind ts t = Some Video \<Longrightarrow> swapS ts t (swapS ts t ss) = swapS ts t ss"
  by (cases "findVideo ts ss")
     (simp_all add: swapS_def findVideo_append findVideo_update)

lemma restoreS_idem:
  "trackKind ts t = Some Video \<Longrightarrow> restoreS ts t (restoreS ts t ss) = restoreS ts t ss"
  by (cases "findVideo ts ss") (simp_all add: restoreS_def findVideo_update)

lemma trackKind_cong:
  "map kind ts' = map kind ts \<Longrightarrow> trackKind ts' t = trackKind ts t"
proof -
  assume a: "map kind ts' = map kind ts"
  then have l: "length ts' = length ts" by (rule map_eq_imp_length_eq)
  have "t < length ts \<Longrightarrow> kind (ts' ! t) = kind (ts ! t)"
    using a l by (metis nth_map)
  then show ?thesis using l by (simp add: trackKind_def)
qed

lemma findVideo_cong:
  assumes "map kind ts' = map kind ts"
  shows "findVideo ts' ss = findVideo ts ss"
proof -
  have k: "trackKind ts' t = trackKind ts t" for t
    using assms by (rule trackKind_cong)
  show ?thesis
    by (induction ss) (simp_all add: k split: option.splits)
qed

lemma trackKind_append: "t < length ts \<Longrightarrow> trackKind (ts @ us) t = trackKind ts t"
  by (simp add: trackKind_def nth_append)

lemma findVideo_extend:
  "sendersInRange ts ss \<Longrightarrow> findVideo (ts @ us) ss = findVideo ts ss"
  by (induction ss) (auto simp: sendersInRange_def trackKind_append split: option.splits)

lemma map_kind_applyAt:
  "(\<And>x. kind (f x) = kind x) \<Longrightarrow> map kind (applyAt f ks ts) = map kind ts"
proof (induction ks arbitrary: ts)
  case Nil
  show ?case by simp
next
  case (Cons i ks)
  have "kind (ts[i := f (ts ! i)] ! j) = kind (ts ! j)" if "j < length ts" for j
    using that by (cases "i = j") (simp_all add: Cons.prems)
  then have "map kind (ts[i := f (ts ! i)]) = map kind ts"
    by (intro nth_equalityI) simp_all
  then show ?case using Cons by simp
qed

lemma swapOrAdd_eq:
  "swapOrAdd t pc w =
     updConn (connection pc) (\<lambda>x. x\<lparr>senders := swapS (tracks w) t (senders x)\<rparr>) w"
proof (cases "connection pc < length (conns w)")
  case True
  then show ?thesis
    by (cases "findVideo (tracks w) (senders (conns w ! connection pc))")
       (simp_all add: swapOrAdd_def videoSender_def replaceTrack_def pcAddTrack_def updConn_def
          swapS_def)
next
  case False
  then show ?thesis
    by (simp add: swapOrAdd_def videoSender_def pcAddTrack_def updConn_def list_update_beyond)
qed

lemma restore_eq:
  "restore (Some t) pc w =
     updConn (connection pc) (\<lambda>x. x\<lparr>senders := restoreS (tracks w) t (senders x)\<rparr>) w"
proof (cases "connection pc < length (conns w)")
  case True
  then show ?thesis
    by (cases "findVideo (tracks w) (senders (conns w ! connection pc))")
       (simp_all add: restore_def videoSender_def replaceTrack_def updConn_def restoreS_def)
next
  case False
  then show ?thesis
    by (simp add: restore_def videoSender_def updConn_def list_update_beyond)
qed

lemma fold_swapOrAdd:
  "fold (swapOrAdd t) pcs w =
     w\<lparr>conns := applyAt (\<lambda>x. x\<lparr>senders := swapS (tracks w) t (senders x)\<rparr>)
                 (map connection pcs) (conns w)\<rparr>"
  by (induction pcs arbitrary: w) (simp_all add: swapOrAdd_eq updConn_def)

lemma fold_restore:
  "fold (restore (Some t)) pcs w =
     w\<lparr>conns := applyAt (\<lambda>x. x\<lparr>senders := restoreS (tracks w) t (senders x)\<rparr>)
                 (map connection pcs) (conns w)\<rparr>"
  by (induction pcs arbitrary: w) (simp_all add: restore_eq updConn_def)

lemma fold_restore_None: "fold (restore None) pcs w = w"
  by (induction pcs) (simp_all add: restore_def split: option.splits)

subsection \<open>Well-formed worlds\<close>

lemma wellFormed_senders:
  "wellFormed w \<Longrightarrow> c < length (conns w) \<Longrightarrow> sendersInRange (tracks w) (senders (conns w ! c))"
  by (simp add: wellFormed_def list_all_length)

lemma wellFormed_session:
  "wellFormed w \<Longrightarrow> pc \<in> set (peerConnections w) \<Longrightarrow> connection pc < length (conns w)"
  by (simp add: wellFormed_def list_all_iff)

lemma wellFormed_stream:
  "wellFormed w \<Longrightarrow> s < length (streams w) \<Longrightarrow> t \<in> set (getTracks w s) \<Longrightarrow>
   t < length (tracks w)"
  by (auto simp: wellFormed_def list_all_length getTracks_def in_set_conv_nth)

subsection \<open>The handlers in closed form\<close>

lemma find_None_conv: "find P xs = None \<longleftrightarrow> (\<forall>x \<in> set xs. \<not> P x)"
  by (induction xs) auto

lemma loadParticipants_eq: "loadParticipants rows w = w\<lparr>participants := filter is_online rows\<rparr>"
  by (simp add: loadParticipants_def rerender_def)

lemma endCall_eq:
  "endCall (render w) w =
     w\<lparr>tracks := applyAt (\<lambda>x. x\<lparr>ended := True\<rparr>) (heldTracks w) (tracks w),
       conns := applyAt (\<lambda>x. x\<lparr>isClosed := True\<rparr>) (map connection (peerConnections w)) (conns w),
       localStream := None, screenStream := None, peerConnections := [], isInCall := False,
       isMuted := False, isVideoOn := False, isScreenSharing := False\<rparr>"
  by (cases "localStream w"; cases "screenStream w")
     (simp_all add: endCall_def render_def heldTracks_def Let_def fold_stop fold_close
        getTracks_def applyAt_append)

lemma createPeerConnection_initiator:
  "createPeerConnection v u s True w =
     w\<lparr>conns := conns w @ [offerConnection (getTracks w s) (v_user v) (length (conns w), u)],
       sent := (if signalingChannel w = None then sent w
                else sent w @ [offerMessage (v_user v) (length (conns w), u)]),
       peerConnections :=
         (if \<exists>p \<in> set (peerConnections w). userId p = u then peerConnections w
          else peerConnections w @ [newSession (length (conns w), u)])\<rparr>"
proof -
  define w1 where "w1 = w\<lparr>conns := conns w @ [newConnection u (v_user v) True]\<rparr>"
  have l: "length (conns w) < length (conns w1)" by (simp add: w1_def)
  have g: "getTracks w1 s = getTracks w s" by (simp add: w1_def getTracks_def)
  have f: "fold (pcAddTrack (length (conns w))) (getTracks w s) w1 =
       w\<lparr>conns := conns w @ [(newConnection u (v_user v) True)
              \<lparr>senders := map Some (getTracks w s)\<rparr>]\<rparr>"
    by (simp add: fold_pcAddTrack [OF l]) (simp add: w1_def newConnection_def)
  show ?thesis
    by (simp add: createPeerConnection_def Let_def g f w1_def [symmetric])
       (auto simp: setLocalDescription_def send_def updConn_def newConnection_def
          offerConnection_def offerMessage_def newSession_def)
qed

lemma createPeerConnection_sessions:
  "peerConnections (createPeerConnection v u s i w) =
     (if \<exists>p \<in> set (peerConnections w). userId p = u then peerConnections w
      else peerConnections w @ [\<lparr>userId = u, connection = length (conns w), stream = None\<rparr>])"
proof -
  define w1 where "w1 = w\<lparr>conns := conns w @ [newConnection u (v_user v) True]\<rparr>"
  have l: "length (conns w) < length (conns w1)" by (simp add: w1_def)
  have p: "peerConnections (fold (pcAddTrack (length (conns w))) (getTracks w1 s) w1) =
      peerConnections w"
    by (simp add: fold_pcAddTrack [OF l]) (simp add: w1_def)
  show ?thesis
    using p
    by (cases i)
       (simp_all add: createPeerConnection_def Let_def w1_def [symmetric]
          setLocalDescription_def send_def updConn_def)
qed

lemma fold_createPeerConnection:
  "fold (\<lambda>u. createPeerConnection v u s True) us w =
     w\<lparr>conns := conns w @
          map (offerConnection (getTracks w s) (v_user v)) (enumerate (length (conns w)) us),
       sent := (if signalingChannel w = None then sent w
                else sent w @ map (offerMessage (v_user v)) (enumerate (length (conns w)) us)),
       peerConnections := peerConnections (fold (\<lambda>u. createPeerConnection v u s True) us w)\<rparr>"
proof (induction us arbitrary: w)
  case Nil
  show ?case by simp
next
  case (Cons u us)
  define w1 where "w1 = createPeerConnection v u s True w"
  have g: "getTracks w1 s = getTracks w s" "length (conns w1) = Suc (length (conns w))"
    "signalingChannel w1 = signalingChannel w"
    by (simp_all add: w1_def createPeerConnection_initiator getTracks_def)
  have "fold (\<lambda>u. createPeerConnection v u s True) (u # us) w =
      fold (\<lambda>u. createPeerConnection v u s True) us w1"
    by (simp add: w1_def)
  also have "\<dots> = w1\<lparr>conns := conns w1 @
          map (offerConnection (getTracks w1 s) (v_user v)) (enumerate (length (conns w1)) us),
       sent := (if signalingChannel w1 = None then sent w1
                else sent w1 @ map (offerMessage (v_user v)) (enumerate (length (conns w1)) us)),
       peerConnections := peerConnections (fold (\<lambda>u. createPeerConnection v u s True) us w1)\<rparr>"
    by (rule Cons.IH)
  also have "\<dots> = w\<lparr>conns := conns w @
          map (offerConnection (getTracks w s) (v_user v)) (enumerate (length (conns w)) (u # us)),
       sent := (if signalingChannel w = None then sent w
                else sent w @ map (offerMessage (v_user v)) (enumerate (length (conns w)) (u # us))),
       peerConnections := peerConnections (fold (\<lambda>u. createPeerConnection v u s True) (u # us) w)\<rparr>"
    by (simp add: g) (simp add: w1_def createPeerConnection_initiator)
  finally show ?case .
qed

lemma sessions_createPeerConnection:
  "distinct us \<Longrightarrow> \<forall>u \<in> set us. u \<notin> userId ` set (peerConnections w) \<Longrightarrow>
   peerConnections (fold (\<lambda>u. createPeerConnection v u s True) us w) =
     peerConnections w @ map newSession (enumerate (length (conns w)) us)"
proof (induction us arbitrary: w)
  case Nil
  show ?case by simp
next
  case (Cons u us)
  define w1 where "w1 = createPeerConnection v u s True w"
  from Cons.prems have n: "\<not> (\<exists>p \<in> set (peerConnections w). userId p = u)" by auto
  then have p1: "peerConnections w1 = peerConnections w @ [newSession (length (conns w), u)]"
    and l1: "length (conns w1) = Suc (length (conns w))"
    by (simp_all add: w1_def createPeerConnection_initiator)
  have d: "distinct us" using Cons.prems by simp
  have f: "\<forall>x \<in> set us. x \<notin> userId ` set (peerConnections w1)"
    using Cons.prems by (auto simp: p1 newSession_def)
  show ?case
    using Cons.IH [OF d f] by (simp add: w1_def [symmetric] p1 l1)
qed

lemma sessions_distinct_createPeerConnection:
  "distinct (map userId (peerConnections w)) \<Longrightarrow>
   distinct (map userId (peerConnections (fold (\<lambda>u. createPeerConnection v u s True) us w))) \<and>
   userId ` set (peerConnections (fold (\<lambda>u. createPeerConnection v u s True) us w)) =
     userId ` set (peerConnections w) \<union> set us"
proof (induction us arbitrary: w)
  case Nil
  then show ?case by simp
next
  case (Cons u us)
  define w1 where "w1 = createPeerConnection v u s True w"
  have d: "distinct (map userId (peerConnections w1))"
    and e: "userId ` set (peerConnections w1) = insert u (userId ` set (peerConnections w))"
    using Cons.prems by (auto simp: w1_def createPeerConnection_initiator newSession_def)
  show ?case
    using Cons.IH [OF d] by (simp add: w1_def [symmetric] e)
qed

lemma forEach_participants:
  "fold (\<lambda>p w'. if Some (user_id p) \<noteq> me then f (user_id p) w' else w') ps w =
     fold f (filter (\<lambda>u. Some u \<noteq> me) (map user_id ps)) w"
  by (induction ps arbitrary: w) simp_all

lemma toggleOn_eq:
  "\<not> isScreenSharing w \<Longrightarrow>
   toggleScreenShare (render w) (Some a) w =
     w\<lparr>tracks := (tracks w @ map newTrack (Video # (if a then [Audio] else [])))
                   [length (tracks w) := (newTrack Video)\<lparr>onended := True\<rparr>],
       streams := streams w @
          [[length (tracks w) ..< length (tracks w) + length (Video # (if a then [Audio] else []))]],
       screenStream := Some (length (streams w)),
       conns := applyAt
          (\<lambda>x. x\<lparr>senders := swapS (tracks w @ map newTrack (Video # (if a then [Audio] else [])))
                                (length (tracks w)) (senders x)\<rparr>)
          (map connection (peerConnections w)) (conns w),
       isScreenSharing := True\<rparr>"
  by (cases a)
     (simp_all add: toggleScreenShare_def render_sel mediaStream_def getVideoTracks_def
        getTracks_def trackKind_def newTrack_def nth_append upt_rec Let_def fold_swapOrAdd
        updTrack_def)

lemma toggleOff_eq:
  assumes "isScreenSharing w" "screenStream w = Some s" "localStream w = Some ls" "isVideoOn w"
    and "firstOf (filter (\<lambda>t. trackKind (applyAt (\<lambda>x. x\<lparr>ended := True\<rparr>) (getTracks w s) (tracks w)) t
            = Some Video) (getTracks w ls)) = Some cam"
  shows "toggleScreenShare (render w) r w =
     w\<lparr>tracks := applyAt (\<lambda>x. x\<lparr>ended := True\<rparr>) (getTracks w s) (tracks w),
       screenStream := None,
       conns := applyAt
          (\<lambda>x. x\<lparr>senders := restoreS (applyAt (\<lambda>x. x\<lparr>ended := True\<rparr>) (getTracks w s) (tracks w))
                                cam (senders x)\<rparr>)
          (map connection (peerConnections w)) (conns w),
       isScreenSharing := False\<rparr>"
proof -
  have g: "getVideoTracks (w\<lparr>tracks := T, screenStream := None\<rparr>) ls =
      filter (\<lambda>t. trackKind T t = Some Video) (getTracks w ls)" for T
    by (simp add: getVideoTracks_def getTracks_def)
  show ?thesis
    using assms
    by (simp add: toggleScreenShare_def render_sel Let_def fold_stop g fold_restore)
qed

section \<open>Reachable worlds are well-formed\<close>

text \<open>
  No handler, whatever render created it, makes a reference dangle; so every reachable
  world is well-formed, and the example worlds are reachable.
\<close>

lemma list_all_update:
  "list_all P xs \<Longrightarrow> (i < length xs \<Longrightarrow> P y) \<Longrightarrow> list_all P (xs[i := y])"
  by (cases "i < length xs")
     (auto simp: list_all_iff list_update_beyond dest!: set_update_subset_insert [THEN subsetD])

lemma wf_updTrack: "wellFormed w \<Longrightarrow> wellFormed (updTrack t f w)"
  by (simp add: wellFormed_def updTrack_def sendersInRange_def cong: option.case_cong)

lemma wf_stop: "wellFormed w \<Longrightarrow> wellFormed (stop t w)"
  by (simp add: stop_def wf_updTrack)

lemma wf_updConn:
  assumes "wellFormed w"
    and "\<And>x. sendersInRange (tracks w) (senders x) \<Longrightarrow> sendersInRange (tracks w) (senders (f x))"
  shows "wellFormed (updConn c f w)"
proof -
  have "list_all (\<lambda>pc. sendersInRange (tracks w) (senders pc)) ((conns w)[c := f (conns w ! c)])"
    using assms by (intro list_all_update) (simp_all add: wellFormed_def list_all_length)
  then show ?thesis using assms(1) by (simp add: wellFormed_def updConn_def cong: option.case_cong)
qed

lemma wf_pcAddTrack: "wellFormed w \<Longrightarrow> t < length (tracks w) \<Longrightarrow> wellFormed (pcAddTrack c t w)"
  unfolding pcAddTrack_def by (rule wf_updConn) (simp_all add: sendersInRange_def)

lemma wf_replaceTrack:
  "wellFormed w \<Longrightarrow> t < length (tracks w) \<Longrightarrow> wellFormed (replaceTrack c i t w)"
  unfolding replaceTrack_def
  by (rule wf_updConn) (simp_all add: sendersInRange_def list_all_update)

lemma wf_descriptions:
  "wellFormed w \<Longrightarrow> wellFormed (setLocalDescription c d w)"
  "wellFormed w \<Longrightarrow> wellFormed (setRemoteDescription c d w)"
  "wellFormed w \<Longrightarrow> wellFormed (addIceCandidate c x w)"
  "wellFormed w \<Longrightarrow> wellFormed (close c w)"
  unfolding setLocalDescription_def setRemoteDescription_def addIceCandidate_def close_def
  by (rule wf_updConn; simp)+

lemma wf_send: "wellFormed w \<Longrightarrow> wellFormed (send m w)"
  by (simp add: wellFormed_def send_def cong: option.case_cong)

lemma fold_invariant: "(\<And>x s. P s \<Longrightarrow> P (f x s)) \<Longrightarrow> P s \<Longrightarrow> P (fold f xs s)"
  by (induction xs arbitrary: s) simp_all

lemma wf_mediaStream: "wellFormed w \<Longrightarrow> wellFormed (snd (mediaStream ks w))"
  by (auto simp: wellFormed_def mediaStream_def sendersInRange_def list_all_iff
      split: option.splits intro: trans_less_add1)

lemma wf_mount: "wellFormed (mount r u ps)"
  by (simp add: mount_def subscribe_def wellFormed_def)


lemma wellFormed_iff:
  "wellFormed w \<longleftrightarrow>
     (\<forall>s \<in> set (streams w). \<forall>t \<in> set s. t < length (tracks w)) \<and>
     (\<forall>c \<in> set (conns w). \<forall>t. Some t \<in> set (senders c) \<longrightarrow> t < length (tracks w)) \<and>
     (\<forall>p \<in> set (peerConnections w). connection p < length (conns w)) \<and>
     (\<forall>s. localStream w = Some s \<longrightarrow> s < length (streams w)) \<and>
     (\<forall>s. screenStream w = Some s \<longrightarrow> s < length (streams w))"
  by (auto simp: wellFormed_def sendersInRange_def list_all_iff split: option.splits)

lemma createPeerConnection_eq:
  "createPeerConnection v u s i w =
     w\<lparr>conns := conns w @
          [(offerConnection (getTracks w s) (v_user v) (length (conns w), u))
             \<lparr>localDescription := (if i then Some (OfferOf (length (conns w))) else None)\<rparr>],
       sent := (if i \<and> signalingChannel w \<noteq> None
                then sent w @ [offerMessage (v_user v) (length (conns w), u)] else sent w),
       peerConnections :=
         (if \<exists>p \<in> set (peerConnections w). userId p = u then peerConnections w
          else peerConnections w @ [newSession (length (conns w), u)])\<rparr>"
proof -
  define w1 where "w1 = w\<lparr>conns := conns w @ [newConnection u (v_user v) True]\<rparr>"
  have l: "length (conns w) < length (conns w1)" by (simp add: w1_def)
  have g: "getTracks w1 s = getTracks w s" by (simp add: w1_def getTracks_def)
  have f: "fold (pcAddTrack (length (conns w))) (getTracks w s) w1 =
       w\<lparr>conns := conns w @ [(newConnection u (v_user v) True)
              \<lparr>senders := map Some (getTracks w s)\<rparr>]\<rparr>"
    by (simp add: fold_pcAddTrack [OF l]) (simp add: w1_def newConnection_def)
  have "createPeerConnection v u s i w =
      (let pc = length (conns w);
           w2 = w\<lparr>conns := conns w @ [(newConnection u (v_user v) True)
                  \<lparr>senders := map Some (getTracks w s)\<rparr>]\<rparr>;
           w3 = (if i
                 then send \<lparr>m_to = u, m_from = v_user v, m_signal = OfferSig (OfferOf pc)\<rparr>
                        (setLocalDescription pc (OfferOf pc) w2)
                 else w2)
       in w3\<lparr>peerConnections :=
               (if \<exists>p \<in> set (peerConnections w3). userId p = u then peerConnections w3
                else peerConnections w3 @ [\<lparr>userId = u, connection = pc, stream = None\<rparr>])\<rparr>)"
    by (simp add: createPeerConnection_def Let_def g f w1_def [symmetric])
  then show ?thesis
    by (cases i; cases "signalingChannel w")
       (auto simp: Let_def setLocalDescription_def send_def updConn_def newConnection_def
          offerConnection_def offerMessage_def newSession_def)
qed

lemma handleOffer_eq:
  "handleOffer v p w =
     (case v_localStream v of None \<Rightarrow> w
      | Some ls \<Rightarrow>
          w\<lparr>conns := conns w @
               [\<lparr>senders = map Some (getTracks w ls),
                 localDescription = Some (AnswerOf (length (conns w))),
                 remoteDescription = Some (offer p), iceCandidates = [], isClosed = False,
                 remoteUser = msg_from p, localUser = v_user v, ontrackRegisters = False\<rparr>],
            sent := (if signalingChannel w = None then sent w
                     else sent w @ [\<lparr>m_to = msg_from p, m_from = v_user v,
                            m_signal = AnswerSig (AnswerOf (length (conns w)))\<rparr>]),
            peerConnections := peerConnections w @
               [\<lparr>userId = msg_from p, connection = length (conns w), stream = None\<rparr>]\<rparr>)"
proof (cases "v_localStream v")
  case None
  then show ?thesis by (simp add: handleOffer_def)
next
  case (Some ls)
  define w1 where "w1 = w\<lparr>conns := conns w @ [newConnection (msg_from p) (v_user v) False]\<rparr>"
  have l: "length (conns w) < length (conns w1)" by (simp add: w1_def)
  have g: "getTracks w1 ls = getTracks w ls" by (simp add: w1_def getTracks_def)
  have f: "fold (pcAddTrack (length (conns w))) (getTracks w ls) w1 =
     w\<lparr>conns := conns w @ [(newConnection (msg_from p) (v_user v) False)
            \<lparr>senders := map Some (getTracks w ls)\<rparr>]\<rparr>"
    by (simp add: fold_pcAddTrack [OF l]) (simp add: w1_def newConnection_def)
  have "handleOffer v p w =
      (let pc = length (conns w);
           w3 = setRemoteDescription pc (offer p)
                  (w\<lparr>conns := conns w @ [(newConnection (msg_from p) (v_user v) False)
                       \<lparr>senders := map Some (getTracks w ls)\<rparr>]\<rparr>);
           w4 = setLocalDescription pc (AnswerOf pc) w3;
           w5 = send \<lparr>m_to = msg_from p, m_from = v_user v,
                      m_signal = AnswerSig (AnswerOf pc)\<rparr> w4
       in w5\<lparr>peerConnections :=
               peerConnections w5 @ [\<lparr>userId = msg_from p, connection = pc, stream = None\<rparr>]\<rparr>)"
    using Some by (simp add: handleOffer_def Let_def g f w1_def [symmetric])
  then show ?thesis
    using Some
    by (cases "signalingChannel w")
       (simp_all add: Let_def setRemoteDescription_def setLocalDescription_def send_def
          updConn_def newConnection_def)
qed

lemma wf_createPeerConnection:
  "wellFormed w \<Longrightarrow> wellFormed (createPeerConnection v u s i w)"
  by (auto simp: wellFormed_iff createPeerConnection_eq offerConnection_def newSession_def
      getTracks_def less_Suc_eq)

lemma wf_handleOffer: "wellFormed w \<Longrightarrow> wellFormed (handleOffer v p w)"
  by (auto simp: wellFormed_iff handleOffer_eq getTracks_def less_Suc_eq split: option.splits)

lemma wf_startCall: "wellFormed w \<Longrightarrow> wellFormed (startCall v g w)"
proof (cases g)
  case False
  assume "wellFormed w"
  with False show ?thesis by (simp add: startCall_def)
next
  case True
  assume "wellFormed w"
  then have "wellFormed (snd (mediaStream [Audio] w))" by (rule wf_mediaStream)
  then have "wellFormed ((snd (mediaStream [Audio] w))
      \<lparr>localStream := Some (fst (mediaStream [Audio] w)), isInCall := True, isMuted := False\<rparr>)"
    by (simp add: wellFormed_iff mediaStream_def)
  then show ?thesis
    using True
    by (simp add: startCall_def split_beta Let_def)
       (rule fold_invariant, simp_all add: wf_createPeerConnection)
qed

lemma wf_endCall: "wellFormed w \<Longrightarrow> wellFormed (endCall v w)"
proof -
  assume w: "wellFormed w"
  have 1: "wellFormed (fold stop ts x)" if "wellFormed x" for ts x
    using that by (rule fold_invariant [rotated]) (rule wf_stop)
  have 2: "wellFormed (fold (\<lambda>pc. close (connection pc)) pcs x)" if "wellFormed x" for pcs x
    using that by (rule fold_invariant [rotated]) (rule wf_descriptions)
  have 3: "wellFormed (x\<lparr>localStream := None\<rparr>)" "wellFormed (x\<lparr>screenStream := None\<rparr>)"
    if "wellFormed x" for x
    using that by (simp_all add: wellFormed_iff)
  have "wellFormed (fold (\<lambda>pc. close (connection pc)) (v_peerConnections v)
     (case v_screenStream v of None \<Rightarrow>
        (case v_localStream v of None \<Rightarrow> w
         | Some s \<Rightarrow> (fold stop (getTracks w s) w)\<lparr>localStream := None\<rparr>)
      | Some s \<Rightarrow>
        (fold stop (getTracks (case v_localStream v of None \<Rightarrow> w
         | Some s \<Rightarrow> (fold stop (getTracks w s) w)\<lparr>localStream := None\<rparr>) s)
           (case v_localStream v of None \<Rightarrow> w
         | Some s \<Rightarrow> (fold stop (getTracks w s) w)\<lparr>localStream := None\<rparr>))\<lparr>screenStream := None\<rparr>))"
    using w by (auto intro!: 1 2 3 split: option.splits)
  then show ?thesis
    by (simp add: endCall_def Let_def wellFormed_iff)
qed


lemma wf_fields:
  "wellFormed w \<Longrightarrow> wellFormed (w\<lparr>isInCall := a\<rparr>)"
  "wellFormed w \<Longrightarrow> wellFormed (w\<lparr>isMuted := a\<rparr>)"
  "wellFormed w \<Longrightarrow> wellFormed (w\<lparr>isVideoOn := a\<rparr>)"
  "wellFormed w \<Longrightarrow> wellFormed (w\<lparr>isScreenSharing := a\<rparr>)"
  "wellFormed w \<Longrightarrow> wellFormed (w\<lparr>localStream := None\<rparr>)"
  "wellFormed w \<Longrightarrow> wellFormed (w\<lparr>screenStream := None\<rparr>)"
  "wellFormed w \<Longrightarrow> wellFormed (w\<lparr>roomId := r, user := u, participants := ps\<rparr>)"
  "wellFormed w \<Longrightarrow> wellFormed (w\<lparr>signalingChannel := ch, handlers := h\<rparr>)"
  "wellFormed w \<Longrightarrow> wellFormed (w\<lparr>handlers := h\<rparr>)"
  by (simp_all add: wellFormed_iff)

lemma wf_toggleMute: "wellFormed w \<Longrightarrow> wellFormed (toggleMute v w)"
  by (auto simp: toggleMute_def Let_def wf_fields wf_updTrack split: option.splits list.splits)

lemma wf_handleAnswer: "wellFormed w \<Longrightarrow> wellFormed (handleAnswer v p w)"
  by (simp add: handleAnswer_def wf_descriptions split: option.splits)

lemma wf_handleIceCandidate: "wellFormed w \<Longrightarrow> wellFormed (handleIceCandidate v p w)"
  by (simp add: handleIceCandidate_def wf_descriptions split: option.splits)

lemma wf_onBroadcast: "wellFormed w \<Longrightarrow> wellFormed (onBroadcast ev p w)"
  by (simp add: onBroadcast_def wf_handleOffer wf_handleAnswer wf_handleIceCandidate
      split: option.splits event.splits)

lemma wf_onicecandidate: "wellFormed w \<Longrightarrow> wellFormed (onicecandidate c x w)"
  by (simp add: onicecandidate_def wf_send split: option.splits)

lemma setStream_connection:
  "\<forall>p \<in> set ps. connection p < n \<Longrightarrow> \<forall>p \<in> set (setStream u st ps). connection p < n"
  by (induction ps) auto

lemma wf_ontrack: "wellFormed w \<Longrightarrow> wellFormed (ontrack c st w)"
proof -
  assume w: "wellFormed w"
  then have "\<forall>p \<in> set (peerConnections w). connection p < length (conns w)"
    by (simp add: wellFormed_iff)
  then have "\<forall>p \<in> set (setStream u st (peerConnections w)). connection p < length (conns w)"
    for u by (rule setStream_connection)
  then show ?thesis
    using w by (simp add: ontrack_def Let_def wellFormed_iff)
qed

lemma wf_trackEndedByBrowser: "wellFormed w \<Longrightarrow> wellFormed (trackEndedByBrowser t w)"
  by (simp add: trackEndedByBrowser_def screenEnded_def Let_def wf_updTrack wf_fields)

lemma wf_rerender: "wellFormed w \<Longrightarrow> wellFormed (rerender r u ps w)"
  by (simp add: rerender_def Let_def subscribe_def cleanup_def wellFormed_iff)

lemma wf_loadParticipants: "wellFormed w \<Longrightarrow> wellFormed (loadParticipants rows w)"
  by (simp add: loadParticipants_def wf_rerender)

lemma video_in_range: "t \<in> set (getVideoTracks w s) \<Longrightarrow> t < length (tracks w)"
  by (simp add: getVideoTracks_def trackKind_def split: if_splits)

lemma wf_swapOrAdd:
  "wellFormed w \<Longrightarrow> t < length (tracks w) \<Longrightarrow> wellFormed (swapOrAdd t pc w)"
  by (simp add: swapOrAdd_def wf_replaceTrack wf_pcAddTrack split: option.splits)

lemma wf_restore:
  "wellFormed w \<Longrightarrow> (\<And>t. vt = Some t \<Longrightarrow> t < length (tracks w)) \<Longrightarrow>
   wellFormed (restore vt pc w)"
  by (simp add: restore_def wf_replaceTrack split: option.splits)

lemma wf_streamAddTrack:
  "wellFormed w \<Longrightarrow> t < length (tracks w) \<Longrightarrow> wellFormed (streamAddTrack s t w)"
proof -
  assume w: "wellFormed w" and t: "t < length (tracks w)"
  have "list_all (list_all (\<lambda>t. t < length (tracks w)))
      ((streams w)[s := getTracks w s @ [t]])"
    using w t
    by (intro list_all_update) (auto simp: wellFormed_def getTracks_def list_all_iff)
  then show ?thesis
    using w by (simp add: streamAddTrack_def wellFormed_def cong: option.case_cong)
qed

lemma wf_streamRemoveTrack: "wellFormed w \<Longrightarrow> wellFormed (streamRemoveTrack s t w)"
proof -
  assume w: "wellFormed w"
  have "list_all (list_all (\<lambda>t. t < length (tracks w)))
      ((streams w)[s := removeAll t (getTracks w s)])"
    using w
    by (intro list_all_update) (auto simp: wellFormed_def getTracks_def list_all_iff)
  then show ?thesis
    using w by (simp add: streamRemoveTrack_def wellFormed_def cong: option.case_cong)
qed

lemma wf_fold_pcAddTrack:
  "wellFormed w \<Longrightarrow> t < length (tracks w) \<Longrightarrow>
   wellFormed (fold (\<lambda>pc. pcAddTrack (connection pc) t) pcs w)"
proof (induction pcs arbitrary: w)
  case Nil
  then show ?case by simp
next
  case (Cons p pcs)
  have "tracks (pcAddTrack (connection p) t w) = tracks w"
    by (simp add: pcAddTrack_def updConn_def)
  with Cons show ?case by (simp add: wf_pcAddTrack)
qed

lemma wf_fold_swapOrAdd:
  "wellFormed w \<Longrightarrow> t < length (tracks w) \<Longrightarrow> wellFormed (fold (swapOrAdd t) pcs w)"
proof (induction pcs arbitrary: w)
  case Nil
  then show ?case by simp
next
  case (Cons p pcs)
  have "tracks (swapOrAdd t p w) = tracks w"
    by (simp add: swapOrAdd_eq updConn_def)
  with Cons show ?case by (simp add: wf_swapOrAdd)
qed

lemma wf_fold_restore:
  "wellFormed w \<Longrightarrow> t < length (tracks w) \<Longrightarrow> wellFormed (fold (restore (Some t)) pcs w)"
proof (induction pcs arbitrary: w)
  case Nil
  then show ?case by simp
next
  case (Cons p pcs)
  have 1: "tracks (restore (Some t) p w) = tracks w"
    by (simp add: restore_eq updConn_def)
  have 2: "wellFormed (restore (Some t) p w)"
    using Cons.prems by (intro wf_restore) simp_all
  show ?case
    using Cons.IH [OF 2] Cons.prems(2) by (simp add: 1)
qed

lemma firstOf_in: "firstOf xs = Some x \<Longrightarrow> x \<in> set xs"
  by (simp add: firstOf_def split: list.splits)

lemma wf_toggleVideo: "wellFormed w \<Longrightarrow> wellFormed (toggleVideo v g w)"
proof -
  assume w: "wellFormed w"
  show ?thesis
  proof (cases "v_isVideoOn v")
    case True
    have "wellFormed (fold (\<lambda>t w'. streamRemoveTrack ls t (stop t w')) ts w)" for ls ts
      using w by (rule fold_invariant [rotated]) (simp add: wf_streamRemoveTrack wf_stop)
    then show ?thesis
      using True w by (simp add: toggleVideo_def Let_def wf_fields split: option.splits)
  next
    case False
    show ?thesis
    proof (cases g)
      case False
      with \<open>\<not> v_isVideoOn v\<close> w show ?thesis by (simp add: toggleVideo_def)
    next
      case True
      define vs where "vs = fst (mediaStream [Video] w)"
      define w1 where "w1 = snd (mediaStream [Video] w)"
      have w1: "wellFormed w1" unfolding w1_def using w by (rule wf_mediaStream)
      have vs: "vs < length (streams w1)" by (simp add: vs_def w1_def mediaStream_def)
      have r: "wellFormed ((fold (\<lambda>pc. pcAddTrack (connection pc) vt) (v_peerConnections v)
          (case v_localStream v of Some ls \<Rightarrow> streamAddTrack ls vt w1
           | None \<Rightarrow> w1\<lparr>localStream := Some vs\<rparr>))\<lparr>isVideoOn := True\<rparr>)"
        if vt: "vt \<in> set (getVideoTracks w1 vs)" for vt
      proof -
        have t: "vt < length (tracks w1)" using vt by (rule video_in_range)
        define w2 where "w2 = (case v_localStream v of Some ls \<Rightarrow> streamAddTrack ls vt w1
           | None \<Rightarrow> w1\<lparr>localStream := Some vs\<rparr>)"
        have "wellFormed w2 \<and> vt < length (tracks w2)"
        proof (cases "v_localStream v")
          case None
          with w1 t vs show ?thesis
            by (simp add: w2_def wellFormed_iff)
        next
          case (Some ls)
          have "tracks (streamAddTrack ls vt w1) = tracks w1"
            by (simp add: streamAddTrack_def)
          with Some w1 t show ?thesis
            by (simp add: w2_def wf_streamAddTrack)
        qed
        then have w2: "wellFormed w2" "vt < length (tracks w2)" by simp_all
        have "wellFormed (fold (\<lambda>pc. pcAddTrack (connection pc) vt) (v_peerConnections v) w2)"
          using w2 by (rule wf_fold_pcAddTrack)
        then show ?thesis by (simp add: w2_def wf_fields)
      qed
      have e: "toggleVideo v g w =
          (case getVideoTracks w1 vs of [] \<Rightarrow> w1
           | vt # _ \<Rightarrow>
               (fold (\<lambda>pc. pcAddTrack (connection pc) vt) (v_peerConnections v)
                  (case v_localStream v of Some ls \<Rightarrow> streamAddTrack ls vt w1
                   | None \<Rightarrow> w1\<lparr>localStream := Some vs\<rparr>))\<lparr>isVideoOn := True\<rparr>)"
        using \<open>\<not> v_isVideoOn v\<close> True
        by (simp add: toggleVideo_def split_beta Let_def vs_def w1_def
            cong: list.case_cong option.case_cong)
      show ?thesis
      proof (cases "getVideoTracks w1 vs")
        case Nil
        with e w1 show ?thesis by simp
      next
        case (Cons vt rest)
        then have "vt \<in> set (getVideoTracks w1 vs)" by simp
        from r [OF this] e Cons show ?thesis by simp
      qed
    qed
  qed
qed

lemma wf_toggleScreenShare: "wellFormed w \<Longrightarrow> wellFormed (toggleScreenShare v r w)"
proof -
  assume w: "wellFormed w"
  show ?thesis
  proof (cases "v_isScreenSharing v")
    case True
    define w1 where "w1 = (case v_screenStream v of None \<Rightarrow> w
        | Some s \<Rightarrow> (fold stop (getTracks w s) w)\<lparr>screenStream := None\<rparr>)"
    have "wellFormed (fold stop ts w)" for ts
      using w by (rule fold_invariant [rotated]) (rule wf_stop)
    then have w1: "wellFormed w1"
      using w by (simp add: w1_def wf_fields split: option.splits)
    have "wellFormed (fold (restore vt) (v_peerConnections v) w1)"
      if "\<And>t. vt = Some t \<Longrightarrow> t < length (tracks w1)" for vt
    proof (cases vt)
      case None
      then show ?thesis using w1 by (simp add: fold_restore_None)
    next
      case (Some t)
      with that have t: "t < length (tracks w1)" by simp
      show ?thesis
        unfolding Some using w1 t by (rule wf_fold_restore)
    qed
    then have "wellFormed (fold (restore (firstOf (getVideoTracks w1 ls))) (v_peerConnections v) w1)"
      for ls
      by (auto dest!: firstOf_in video_in_range)
    then show ?thesis
      using True w1
      by (simp add: toggleScreenShare_def Let_def w1_def [symmetric] wf_fields
          split: option.splits)
  next
    case False
    show ?thesis
    proof (cases r)
      case None
      with False w show ?thesis by (simp add: toggleScreenShare_def)
    next
      case (Some a)
      define ks where "ks = Video # (if a then [Audio] else [])"
      define s where "s = fst (mediaStream ks w)"
      define w2 where "w2 = (snd (mediaStream ks w))\<lparr>screenStream := Some s\<rparr>"
      have "wellFormed (snd (mediaStream ks w))" using w by (rule wf_mediaStream)
      then have w2: "wellFormed w2"
        by (simp add: w2_def s_def wellFormed_iff mediaStream_def)
      have q: "wellFormed ((updTrack vt (\<lambda>x. x\<lparr>onended := True\<rparr>)
          (fold (swapOrAdd vt) (v_peerConnections v) w2))\<lparr>isScreenSharing := True\<rparr>)"
        if vt: "vt \<in> set (getVideoTracks w2 s)" for vt
      proof -
        have t: "vt < length (tracks w2)" using vt by (rule video_in_range)
        have "wellFormed (fold (swapOrAdd vt) (v_peerConnections v) w2)"
          using w2 t by (rule wf_fold_swapOrAdd)
        then show ?thesis by (simp add: wf_fields wf_updTrack)
      qed
      have e: "toggleScreenShare v r w =
          (case getVideoTracks w2 s of [] \<Rightarrow> w2
           | vt # _ \<Rightarrow>
               (updTrack vt (\<lambda>x. x\<lparr>onended := True\<rparr>)
                  (fold (swapOrAdd vt) (v_peerConnections v) w2))\<lparr>isScreenSharing := True\<rparr>)"
        using False Some
        by (simp add: toggleScreenShare_def split_beta Let_def ks_def s_def w2_def
            cong: list.case_cong option.case_cong)
      show ?thesis
      proof (cases "getVideoTracks w2 s")
        case Nil
        with e w2 show ?thesis by simp
      next
        case (Cons vt rest)
        then have "vt \<in> set (getVideoTracks w2 s)" by simp
        from q [OF this] e Cons show ?thesis by simp
      qed
    qed
  qed
qed

lemma reachable_wellFormed: "reachable w \<Longrightarrow> wellFormed w"
proof (induction rule: reachable.induct)
  case (mounted r u ps)
  show ?case by (rule wf_mount)
next
  case (rerendered w r u ps)
  then show ?case by (simp add: wf_rerender)
next
  case (resubscribed w)
  then show ?case by (simp add: subscribe_def cleanup_def wellFormed_iff)
next
  case (joined w granted)
  then show ?case by (simp add: wf_startCall)
next
  case (hungUp w)
  then show ?case by (simp add: wf_endCall)
next
  case (muteToggled w)
  then show ?case by (simp add: wf_toggleMute)
next
  case (videoToggled w granted)
  then show ?case by (simp add: wf_toggleVideo)
next
  case (shareToggled w result)
  then show ?case by (simp add: wf_toggleScreenShare)
next
  case (received w ev p)
  then show ?case by (simp add: wf_onBroadcast)
next
  case (candidateGathered w c x)
  then show ?case by (simp add: wf_onicecandidate)
next
  case (trackArrived w c st)
  then show ?case by (simp add: wf_ontrack)
next
  case (trackEnded w t)
  then show ?case by (simp add: wf_trackEndedByBrowser)
qed

lemma reachable_examples: "reachable lobby \<and> reachable inCall \<and> reachable withCamera \<and> reachable sharing"
proof -
  have 1: "reachable lobby" unfolding lobby_def by (rule reachable.mounted)
  have 2: "reachable inCall"
    unfolding inCall_def using 1 by (rule reachable.joined) (simp add: lobby_eq)
  have 3: "reachable withCamera"
    unfolding withCamera_def using 2 by (rule reachable.videoToggled) (simp add: inCall_eq)
  have 4: "reachable sharing"
    unfolding sharing_def using 3
    by (rule reachable.shareToggled) (simp add: withCamera_eq inCall_eq)
  from 1 2 3 4 show ?thesis by simp
qed

lemma reachable_afterCall: "reachable switched \<and> reachable afterCall"
proof -
  have i: "reachable inCall" using reachable_examples by simp
  have 1: "reachable switched"
    unfolding switched_def using i by (rule reachable.rerendered)
  have 2: "reachable afterCall"
    unfolding afterCall_def using 1 by (rule reachable.hungUp) (simp add: switched_eq inCall_eq)
  from 1 2 show ?thesis by simp
qed

section \<open>Entries captured by a render\<close>

text \<open>
  The entries of the session list are objects, and the list a render's handlers captured
  shares them with later lists: when \<open>ontrack\<close> assigns \<open>existing.stream\<close> the captured
  entry changes too, while \<open>v_peerConnections\<close> of a view keeps the value it had. The
  difference cannot be observed by a handler: replacing the captured list by one with the
  same user ids and connections, whatever the streams, changes the result of none.
\<close>

lemma fold_same_keys:
  "map k xs = map k ys \<Longrightarrow> (\<And>x y. k x = k y \<Longrightarrow> f x = f y) \<Longrightarrow> fold f xs = fold f ys"
proof (induction xs arbitrary: ys)
  case Nil
  from Nil.prems(1) show ?case by simp
next
  case (Cons x xs)
  from Cons.prems(1) obtain y ys' where ys: "ys = y # ys'" by (cases ys) auto
  with Cons.prems(1) have k: "k x = k y" and m: "map k xs = map k ys'" by simp_all
  have "f x = f y" using k by (rule Cons.prems(2))
  moreover have "fold f xs = fold f ys'" using m Cons.prems(2) by (rule Cons.IH)
  ultimately show ?case by (simp add: ys)
qed

lemma find_same_keys:
  "map (\<lambda>e. (userId e, connection e)) xs = map (\<lambda>e. (userId e, connection e)) ys \<Longrightarrow>
   map_option connection (find (\<lambda>e. userId e = u) xs) =
   map_option connection (find (\<lambda>e. userId e = u) ys)"
proof (induction xs arbitrary: ys)
  case Nil
  then show ?case by simp
next
  case (Cons x xs)
  from Cons.prems obtain y ys' where ys: "ys = y # ys'" by (cases ys) auto
  with Cons.prems have e: "userId x = userId y" "connection x = connection y"
    and m: "map (\<lambda>e. (userId e, connection e)) xs = map (\<lambda>e. (userId e, connection e)) ys'"
    by simp_all
  show ?case
    using Cons.IH [OF m] by (simp add: ys e)
qed

lemma handlers_ignore_stream:
  assumes "map (\<lambda>e. (userId e, connection e)) ps =
           map (\<lambda>e. (userId e, connection e)) (v_peerConnections v)"
  shows "endCall (v\<lparr>v_peerConnections := ps\<rparr>) w = endCall v w"
    and "toggleVideo (v\<lparr>v_peerConnections := ps\<rparr>) g w = toggleVideo v g w"
    and "toggleScreenShare (v\<lparr>v_peerConnections := ps\<rparr>) r w = toggleScreenShare v r w"
    and "handleAnswer (v\<lparr>v_peerConnections := ps\<rparr>) p w = handleAnswer v p w"
    and "handleIceCandidate (v\<lparr>v_peerConnections := ps\<rparr>) p w = handleIceCandidate v p w"
    and "handleOffer (v\<lparr>v_peerConnections := ps\<rparr>) p w = handleOffer v p w"
    and "startCall (v\<lparr>v_peerConnections := ps\<rparr>) g w = startCall v g w"
    and "toggleMute (v\<lparr>v_peerConnections := ps\<rparr>) w = toggleMute v w"
proof -
  have c: "map connection ps = map connection (v_peerConnections v)"
    using assms [THEN arg_cong, of "map snd"] by (simp add: comp_def)
  have f: "fold (\<lambda>pc. h (connection pc)) ps = fold (\<lambda>pc. h (connection pc)) (v_peerConnections v)"
    for h :: "conn_id \<Rightarrow> world \<Rightarrow> world"
    using c by (rule fold_same_keys) simp
  have s: "fold (swapOrAdd t) ps = fold (swapOrAdd t) (v_peerConnections v)" for t
    using c by (rule fold_same_keys) (simp add: swapOrAdd_def fun_eq_iff cong: option.case_cong)
  have r: "fold (restore t) ps = fold (restore t) (v_peerConnections v)" for t
    using c by (rule fold_same_keys) (simp add: restore_def fun_eq_iff cong: option.case_cong)
  have fc: "fold (\<lambda>pc. close (connection pc)) ps =
      fold (\<lambda>pc. close (connection pc)) (v_peerConnections v)"
    by (rule f)
  have fa: "fold (\<lambda>pc. pcAddTrack (connection pc) t) ps =
      fold (\<lambda>pc. pcAddTrack (connection pc) t) (v_peerConnections v)" for t
    by (rule f [of "\<lambda>c. pcAddTrack c t"])
  note q = find_same_keys [OF assms]
  show "endCall (v\<lparr>v_peerConnections := ps\<rparr>) w = endCall v w"
    by (simp add: endCall_def fc Let_def)
  show "toggleVideo (v\<lparr>v_peerConnections := ps\<rparr>) g w = toggleVideo v g w"
    by (simp add: toggleVideo_def fa split_beta Let_def cong: list.case_cong option.case_cong if_cong)
  show "toggleScreenShare (v\<lparr>v_peerConnections := ps\<rparr>) r w = toggleScreenShare v r w"
    by (simp add: toggleScreenShare_def s r split_beta Let_def
        cong: list.case_cong option.case_cong if_cong)
  show "handleAnswer (v\<lparr>v_peerConnections := ps\<rparr>) p w = handleAnswer v p w"
    using q [of "msg_from p"]
    by (cases "find (\<lambda>e. userId e = msg_from p) ps";
        cases "find (\<lambda>e. userId e = msg_from p) (v_peerConnections v)")
       (simp_all add: handleAnswer_def)
  show "handleIceCandidate (v\<lparr>v_peerConnections := ps\<rparr>) p w = handleIceCandidate v p w"
    using q [of "msg_from p"]
    by (cases "find (\<lambda>e. userId e = msg_from p) ps";
        cases "find (\<lambda>e. userId e = msg_from p) (v_peerConnections v)")
       (simp_all add: handleIceCandidate_def cong: option.case_cong)
  show "handleOffer (v\<lparr>v_peerConnections := ps\<rparr>) p w = handleOffer v p w"
    by (simp add: handleOffer_eq cong: option.case_cong)
  show "startCall (v\<lparr>v_peerConnections := ps\<rparr>) g w = startCall v g w"
    by (simp add: startCall_def createPeerConnection_eq split_beta Let_def cong: if_cong)
  show "toggleMute (v\<lparr>v_peerConnections := ps\<rparr>) w = toggleMute v w"
    by (simp add: toggleMute_def cong: option.case_cong)
qed

section \<open>The session list\<close>

text \<open>
  \<open>createPeerConnection\<close> looks for an entry with the remote id before it appends one
  (lines 272-276), and so does its \<open>ontrack\<close> callback (lines 247-254): neither ever
  gives an id a second entry.
\<close>

lemma createPeerConnection_keeps_distinct:
  "distinct (map userId (peerConnections w)) \<Longrightarrow>
   distinct (map userId (peerConnections (createPeerConnection v u s i w)))"
  by (auto simp: createPeerConnection_sessions)

lemma setStream_ids: "map userId (setStream u st ps) = map userId ps"
  by (induction ps) simp_all

lemma ontrack_keeps_distinct:
  "distinct (map userId (peerConnections w)) \<Longrightarrow>
   distinct (map userId (peerConnections (ontrack c st w)))"
  by (auto simp: ontrack_def Let_def setStream_ids)

text \<open>
  C1. At most one session per remote id, a second creation being a no-op, in every
  interleaving of \<open>createPeerConnection\<close> and \<open>handleOffer\<close>. \<open>handleOffer\<close> appends
  its entry without looking (line 323): when Alice has called Bob and Bob's offer arrives,
  the list holds two entries for Bob, on two connections. The second run is the same
  offer delivered through a subscription made during the call.
\<close>

theorem handleOffer_duplicates_session:
  "peerConnections inCall = [\<lparr>userId = ''bob'', connection = 0, stream = None\<rparr>] \<and>
   peerConnections (handleOffer (render inCall) bobOffer inCall) =
     [\<lparr>userId = ''bob'', connection = 0, stream = None\<rparr>,
      \<lparr>userId = ''bob'', connection = 1, stream = None\<rparr>] \<and>
   peerConnections (onBroadcast OfferEv bobOffer (subscribe (cleanup inCall))) =
     [\<lparr>userId = ''bob'', connection = 0, stream = None\<rparr>,
      \<lparr>userId = ''bob'', connection = 1, stream = None\<rparr>]"
  by (simp add: inCall_eq render_def handleOffer_def bobOffer_def browser_defs Let_def
      onBroadcast_def subscribe_def cleanup_def)

section \<open>Candidates\<close>

text \<open>
  C2, as stated: a candidate that arrives before its session exists is buffered and
  applied once the description is set. It is not: Carol's candidate 7 reaches Alice
  before Carol's offer and leaves the world as it was; the offer then creates Carol's
  connection and sets its remote description, and the connection has no candidate.
\<close>

theorem early_candidate_lost:
  "handleIceCandidate (render inCall) earlyCandidate inCall = inCall \<and>
   userId (peerConnections
     (handleOffer (render inCall) carolOffer
        (handleIceCandidate (render inCall) earlyCandidate inCall)) ! 1) = ''carol'' \<and>
   remoteDescription (conns
     (handleOffer (render inCall) carolOffer
        (handleIceCandidate (render inCall) earlyCandidate inCall)) ! 1) = Some (RemoteSdp 5) \<and>
   iceCandidates (conns
     (handleOffer (render inCall) carolOffer
        (handleIceCandidate (render inCall) earlyCandidate inCall)) ! 1) = []"
  by (simp add: inCall_eq render_def handleIceCandidate_def handleOffer_def earlyCandidate_def
      carolOffer_def browser_defs Let_def)

text \<open>
  C2, amended. \<open>handleIceCandidate\<close> buffers nothing. Of a sequence of candidate
  envelopes from one sender, when the session list the handler sees has no entry for the
  sender every one is dropped and the world is unchanged; when it has one, the candidates
  that are present are handed to \<open>addIceCandidate\<close> of the first such entry's
  connection at once and in arrival order, whether or not its remote description is set,
  and nothing else changes.
\<close>

theorem candidates_passed_on_unbuffered:
  "(\<forall>p \<in> set ps. msg_from p = u) \<longrightarrow>
   fold (handleIceCandidate v) ps w =
     (case find (\<lambda>pc. userId pc = u) (v_peerConnections v) of
        None \<Rightarrow> w
      | Some e \<Rightarrow>
          updConn (connection e)
            (\<lambda>pc. pc\<lparr>iceCandidates := iceCandidates pc @ List.map_filter candidate ps\<rparr>) w)"
proof (induction ps arbitrary: w)
  case Nil
  show ?case by (simp add: List.map_filter_simps updConn_id split: option.splits)
next
  case (Cons p ps)
  show ?case
  proof
    assume a: "\<forall>q \<in> set (p # ps). msg_from q = u"
    then have ih: "fold (handleIceCandidate v) ps w' =
     (case find (\<lambda>pc. userId pc = u) (v_peerConnections v) of
        None \<Rightarrow> w'
      | Some e \<Rightarrow>
          updConn (connection e)
            (\<lambda>pc. pc\<lparr>iceCandidates := iceCandidates pc @ List.map_filter candidate ps\<rparr>) w')" for w'
      using Cons.IH by simp
    from a have u: "msg_from p = u" by simp
    show "fold (handleIceCandidate v) (p # ps) w =
     (case find (\<lambda>pc. userId pc = u) (v_peerConnections v) of
        None \<Rightarrow> w
      | Some e \<Rightarrow>
          updConn (connection e)
            (\<lambda>pc. pc\<lparr>iceCandidates := iceCandidates pc @ List.map_filter candidate (p # ps)\<rparr>) w)"
      by (cases "candidate p")
         (simp_all add: ih handleIceCandidate_def u addIceCandidate_def updConn_twice comp_def
           List.map_filter_simps split: option.splits)
  qed
qed

theorem candidates_passed_on_unbuffered_witness:
  "fold (handleIceCandidate (render inCall)) [earlyCandidate, earlyCandidate] inCall = inCall \<and>
   remoteDescription (conns inCall ! 0) = None \<and>
   iceCandidates (conns (fold (handleIceCandidate (render inCall))
      [bobCandidate (Some 3), bobCandidate None, bobCandidate (Some 4)] inCall) ! 0) = [3, 4]"
proof -
  have c: "\<forall>p \<in> set [earlyCandidate, earlyCandidate]. msg_from p = ''carol''"
    by (simp add: earlyCandidate_def)
  have fc: "find (\<lambda>pc. userId pc = ''carol'') (v_peerConnections (render inCall)) = None"
    by (simp add: render_def inCall_eq)
  have 1: "fold (handleIceCandidate (render inCall)) [earlyCandidate, earlyCandidate] inCall = inCall"
    using candidates_passed_on_unbuffered [where ps = "[earlyCandidate, earlyCandidate]"
        and u = "''carol''" and v = "render inCall" and w = inCall] c
    by (simp add: fc)
  have b: "\<forall>p \<in> set [bobCandidate (Some 3), bobCandidate None, bobCandidate (Some 4)].
      msg_from p = ''bob''"
    by (simp add: bobCandidate_def)
  have fb: "find (\<lambda>pc. userId pc = ''bob'') (v_peerConnections (render inCall)) =
      Some \<lparr>userId = ''bob'', connection = 0, stream = None\<rparr>"
    by (simp add: render_def inCall_eq)
  have m: "List.map_filter candidate
      [bobCandidate (Some 3), bobCandidate None, bobCandidate (Some 4)] = [3, 4]"
    by (simp add: bobCandidate_def List.map_filter_simps)
  have "fold (handleIceCandidate (render inCall))
      [bobCandidate (Some 3), bobCandidate None, bobCandidate (Some 4)] inCall =
     (case find (\<lambda>pc. userId pc = ''bob'') (v_peerConnections (render inCall)) of
        None \<Rightarrow> inCall
      | Some e \<Rightarrow>
          updConn (connection e)
            (\<lambda>pc. pc\<lparr>iceCandidates := iceCandidates pc @ List.map_filter candidate
               [bobCandidate (Some 3), bobCandidate None, bobCandidate (Some 4)]\<rparr>) inCall)"
    using candidates_passed_on_unbuffered [where
        ps = "[bobCandidate (Some 3), bobCandidate None, bobCandidate (Some 4)]"
        and u = "''bob''" and v = "render inCall" and w = inCall] b
    by blast
  then have 2: "fold (handleIceCandidate (render inCall))
      [bobCandidate (Some 3), bobCandidate None, bobCandidate (Some 4)] inCall =
     updConn 0 (\<lambda>pc. pc\<lparr>iceCandidates := iceCandidates pc @ [3, 4]\<rparr>) inCall"
    by (simp only: fb m option.case PeerConnection.select_convs)
  show ?thesis
    unfolding 1 2 by (simp add: inCall_eq updConn_def)
qed

section \<open>Roster snapshots\<close>

text \<open>
  C3, as stated: the session of a participant who left the roster is removed and its
  connection closed. It is not: after a snapshot in which Bob is offline the prop no longer
  lists him, and his session is still in the list with its connection open.
\<close>

theorem session_survives_leaving:
  "participants (loadParticipants [alice, bobOffline] inCall) = [alice] \<and>
   peerConnections (loadParticipants [alice, bobOffline] inCall) =
     [\<lparr>userId = ''bob'', connection = 0, stream = None\<rparr>] \<and>
   isClosed (conns (loadParticipants [alice, bobOffline] inCall) ! 0) = False"
  by (simp add: loadParticipants_def rerender_def inCall_eq alice_def bobOffline_def)

text \<open>
  C3, amended. A roster snapshot replaces the \<open>participants\<close> prop by the online rows
  and does nothing else: after any sequence of snapshots the session list and every
  connection are what they were, so the session of a participant who left stays in the
  list with its connection open.
\<close>

theorem roster_changes_only_the_prop:
  "fold loadParticipants snaps w =
     w\<lparr>participants := (if snaps = [] then participants w else filter is_online (last snaps))\<rparr> \<and>
   peerConnections (fold loadParticipants snaps w) = peerConnections w \<and>
   conns (fold loadParticipants snaps w) = conns w"
proof -
  have "fold loadParticipants snaps w =
     w\<lparr>participants := (if snaps = [] then participants w else filter is_online (last snaps))\<rparr>"
  proof (induction snaps arbitrary: w)
    case Nil
    show ?case by simp
  next
    case (Cons a snaps)
    show ?case
      by (simp add: Cons.IH) (simp add: loadParticipants_eq)
  qed
  then show ?thesis by simp
qed

section \<open>Ending the call\<close>

text \<open>
  C4. \<open>endCall\<close>, from the render of any world, leaves the controller idle (no
  streams, no sessions, the four flags off), has closed exactly the connections of the
  sessions and stopped exactly the tracks of the local and the screen stream, and leaves
  the streams and the messages sent as they were; in an idle world it changes nothing.
\<close>

theorem endCall_tears_down:
  "idle (endCall (render w) w) \<and>
   length (conns (endCall (render w) w)) = length (conns w) \<and>
   (\<forall>c < length (conns w).
      conns (endCall (render w) w) ! c =
        (if c \<in> connection ` set (peerConnections w) then (conns w ! c)\<lparr>isClosed := True\<rparr>
         else conns w ! c)) \<and>
   length (tracks (endCall (render w) w)) = length (tracks w) \<and>
   (\<forall>t < length (tracks w).
      tracks (endCall (render w) w) ! t =
        (if t \<in> set (heldTracks w) then (tracks w ! t)\<lparr>ended := True\<rparr> else tracks w ! t)) \<and>
   streams (endCall (render w) w) = streams w \<and>
   sent (endCall (render w) w) = sent w \<and>
   (idle w \<longrightarrow> endCall (render w) w = w)"
proof -
  have i: "idle (endCall (render w) w)"
    by (simp add: endCall_eq idle_def)
  have c: "conns (endCall (render w) w) ! c =
        (if c \<in> connection ` set (peerConnections w) then (conns w ! c)\<lparr>isClosed := True\<rparr>
         else conns w ! c)" if "c < length (conns w)" for c
    using that by (simp add: endCall_eq nth_applyAt)
  have t: "tracks (endCall (render w) w) ! t =
        (if t \<in> set (heldTracks w) then (tracks w ! t)\<lparr>ended := True\<rparr> else tracks w ! t)"
    if "t < length (tracks w)" for t
    using that by (simp add: endCall_eq nth_applyAt)
  have n: "endCall (render w) w = w" if "idle w"
    using that by (cases w) (simp add: endCall_eq idle_def heldTracks_def)
  from i c t n show ?thesis
    by (simp add: endCall_eq)
qed

theorem endCall_tears_down_witness:
  "idle (endCall (render sharing) sharing) \<and>
   map isClosed (conns (endCall (render sharing) sharing)) = [True] \<and>
   map ended (tracks (endCall (render sharing) sharing)) = [True, True, True, True] \<and>
   idle lobby \<and> endCall (render lobby) lobby = lobby"
proof -
  note t = endCall_tears_down [of sharing]
  note l = endCall_tears_down [of lobby]
  have il: "idle lobby" by (simp add: idle_def lobby_eq)
  have lc: "length (conns sharing) = 1" and lt: "length (tracks sharing) = 4"
    and pcs: "connection ` set (peerConnections sharing) = {0}"
    and held: "set (heldTracks sharing) = {0, 1, 2, 3}"
    by (auto simp: sharing_eq withCamera_eq inCall_eq heldTracks_def getTracks_def)
  have c0: "isClosed (conns (endCall (render sharing) sharing) ! 0)"
    using t lc pcs by simp
  have tr: "ended (tracks (endCall (render sharing) sharing) ! 0)"
    "ended (tracks (endCall (render sharing) sharing) ! 1)"
    "ended (tracks (endCall (render sharing) sharing) ! 2)"
    "ended (tracks (endCall (render sharing) sharing) ! 3)"
    using t lt held by simp_all
  have lc': "length (conns (endCall (render sharing) sharing)) = 1"
    and lt': "length (tracks (endCall (render sharing) sharing)) = 4"
    using t lc lt by simp_all
  have m1: "map isClosed (conns (endCall (render sharing) sharing)) = [True]"
    using c0 lc' by (cases "conns (endCall (render sharing) sharing)") simp_all
  have m2: "map ended (tracks (endCall (render sharing) sharing)) = [True, True, True, True]"
    using tr lt' by (auto simp: list_eq_iff_nth_eq nth_Cons' less_Suc_eq numeral_eq_Suc)
  from t l il m1 m2 show ?thesis by simp
qed

section \<open>Starting the call\<close>

text \<open>
  C5. When \<open>getUserMedia\<close> rejects, \<open>startCall\<close> changes nothing. When it resolves
  in an idle world, the local stream is a new stream of one new live audio track,
  \<open>isMuted\<close> is false and \<open>isInCall\<close> true; one connection is created for every entry
  of the prop that is not the local user, carrying the audio track and its own offer as
  local description, and that offer is sent to the entry's id (when the channel exists);
  the session list has exactly the ids of those entries, each once, and when the prop
  lists no id twice it is one entry per connection, in order.
\<close>

theorem startCall_from_idle:
  "startCall (render w) False w = w \<and>
   (idle w \<longrightarrow>
      localStream (startCall (render w) True w) = Some (length (streams w)) \<and>
      streams (startCall (render w) True w) = streams w @ [[length (tracks w)]] \<and>
      tracks (startCall (render w) True w) = tracks w @ [newTrack Audio] \<and>
      isMuted (startCall (render w) True w) = False \<and>
      isInCall (startCall (render w) True w) = True \<and>
      conns (startCall (render w) True w) =
        conns w @ map (offerConnection [length (tracks w)] (user w))
                    (enumerate (length (conns w)) (others w)) \<and>
      sent (startCall (render w) True w) =
        (if signalingChannel w = None then sent w
         else sent w @ map (offerMessage (user w)) (enumerate (length (conns w)) (others w))) \<and>
      distinct (map userId (peerConnections (startCall (render w) True w))) \<and>
      userId ` set (peerConnections (startCall (render w) True w)) = set (others w) \<and>
      (distinct (map user_id (participants w)) \<longrightarrow>
         peerConnections (startCall (render w) True w) =
           map newSession (enumerate (length (conns w)) (others w))))"
proof -
  define w2 where "w2 = w\<lparr>tracks := tracks w @ [newTrack Audio],
     streams := streams w @ [[length (tracks w)]],
     localStream := Some (length (streams w)), isInCall := True, isMuted := False\<rparr>"
  define W where "W = fold (\<lambda>u. createPeerConnection (render w) u (length (streams w)) True) (others w) w2"
  have s: "startCall (render w) True w = W"
    unfolding W_def w2_def others_def
    by (simp add: startCall_def mediaStream_def render_sel
        forEach_participants [where f = "\<lambda>u. createPeerConnection (render w) u (length (streams w)) True"])
  have g: "getTracks w2 (length (streams w)) = [length (tracks w)]"
    by (simp add: getTracks_def w2_def)
  have W: "W = w2\<lparr>conns := conns w2 @
          map (offerConnection (getTracks w2 (length (streams w))) (v_user (render w)))
            (enumerate (length (conns w2)) (others w)),
       sent := (if signalingChannel w2 = None then sent w2
                else sent w2 @ map (offerMessage (v_user (render w))) (enumerate (length (conns w2)) (others w))),
       peerConnections := peerConnections W\<rparr>"
    unfolding W_def by (rule fold_createPeerConnection)
  have f: "startCall (render w) False w = w" by (simp add: startCall_def)
  have W': "W = w\<lparr>tracks := tracks w @ [newTrack Audio],
       streams := streams w @ [[length (tracks w)]],
       localStream := Some (length (streams w)), isInCall := True, isMuted := False,
       conns := conns w @ map (offerConnection [length (tracks w)] (user w))
                    (enumerate (length (conns w)) (others w)),
       sent := (if signalingChannel w = None then sent w
         else sent w @ map (offerMessage (user w)) (enumerate (length (conns w)) (others w))),
       peerConnections := peerConnections W\<rparr>"
    by (subst W, cases "signalingChannel w") (simp_all add: g [unfolded w2_def] render_sel w2_def)
  have f1: "localStream W = Some (length (streams w))" by (subst W') simp
  have f2: "streams W = streams w @ [[length (tracks w)]]" by (subst W') simp
  have f3: "tracks W = tracks w @ [newTrack Audio]" by (subst W') simp
  have f4: "isMuted W = False" by (subst W') simp
  have f5: "isInCall W = True" by (subst W') simp
  have f6: "conns W = conns w @ map (offerConnection [length (tracks w)] (user w))
                    (enumerate (length (conns w)) (others w))" by (subst W') simp
  have f7: "sent W = (if signalingChannel w = None then sent w
         else sent w @ map (offerMessage (user w)) (enumerate (length (conns w)) (others w)))"
    by (subst W') simp
  note fields = f1 f2 f3 f4 f5 f6 f7
  have sess: "distinct (map userId (peerConnections W)) \<and>
      userId ` set (peerConnections W) = set (others w)" if "idle w"
  proof -
    from that have "distinct (map userId (peerConnections w2))" "peerConnections w2 = []"
      by (simp_all add: w2_def idle_def)
    then show ?thesis
      unfolding W_def
      using sessions_distinct_createPeerConnection [of w2 "render w" "length (streams w)" "others w"]
      by simp
  qed
  have exact: "peerConnections W = map newSession (enumerate (length (conns w)) (others w))"
    if "idle w" "distinct (map user_id (participants w))"
  proof -
    from that have e0: "peerConnections w = []" by (simp add: idle_def)
    then have e: "peerConnections w2 = []" by (simp add: w2_def)
    have d: "distinct (others w)" using that(2) by (simp add: others_def distinct_map_filter)
    have "peerConnections W = peerConnections w2 @ map newSession (enumerate (length (conns w2)) (others w))"
      unfolding W_def by (rule sessions_createPeerConnection [OF d]) (simp add: e)
    then show ?thesis by (simp add: e0 w2_def)
  qed
  from f fields sess exact show ?thesis
    unfolding s by simp
qed

theorem startCall_from_idle_witness:
  "idle lobby \<and> distinct (map user_id (participants lobby)) \<and>
   startCall (render lobby) False lobby = lobby \<and>
   localStream inCall = Some 0 \<and> streams inCall = [[0]] \<and> tracks inCall = [newTrack Audio] \<and>
   isMuted inCall = False \<and> isInCall inCall = True \<and>
   peerConnections inCall = [\<lparr>userId = ''bob'', connection = 0, stream = None\<rparr>] \<and>
   map localDescription (conns inCall) = [Some (OfferOf 0)] \<and>
   map senders (conns inCall) = [[Some 0]] \<and>
   sent inCall = [\<lparr>m_to = ''bob'', m_from = Some ''alice'', m_signal = OfferSig (OfferOf 0)\<rparr>]"
proof -
  have i: "idle lobby" by (simp add: idle_def lobby_eq)
  have d: "distinct (map user_id (participants lobby))"
    by (simp add: lobby_eq alice_def bob_def)
  have o: "others lobby = [''bob'']"
    by (simp add: others_def lobby_eq alice_def bob_def)
  have z: "tracks lobby = []" "streams lobby = []" "conns lobby = []" "sent lobby = []"
    "signalingChannel lobby = Some ''webrtc_r1''" "user lobby = Some ''alice''"
    by (simp_all add: lobby_eq)
  show ?thesis
    using startCall_from_idle [of lobby] i d
    unfolding inCall_def [symmetric]
    by (simp add: o z enumerate_eq_zip offerConnection_def offerMessage_def newSession_def)
qed

section \<open>Incoming offers\<close>

text \<open>
  What \<open>handleOffer\<close> does with the bindings it is given. When the \<open>localStream\<close> it
  sees is null the offer is dropped: the world is unchanged. Otherwise one connection is
  created, its senders are the tracks of that stream, its remote description is the offer
  of the payload, its local description is the answer it generated, that answer is sent to
  the sender of the offer (when the channel exists), and a session for the sender on this
  connection is appended; tracks and streams are unchanged.
\<close>

lemma handleOffer_answers:
  "(v_localStream v = None \<longrightarrow> handleOffer v p w = w) \<and>
   (\<forall>ls. v_localStream v = Some ls \<longrightarrow>
      conns (handleOffer v p w) =
        conns w @
        [\<lparr>senders = map Some (getTracks w ls),
          localDescription = Some (AnswerOf (length (conns w))),
          remoteDescription = Some (offer p), iceCandidates = [], isClosed = False,
          remoteUser = msg_from p, localUser = v_user v, ontrackRegisters = False\<rparr>] \<and>
      peerConnections (handleOffer v p w) =
        peerConnections w @
        [\<lparr>userId = msg_from p, connection = length (conns w), stream = None\<rparr>] \<and>
      sent (handleOffer v p w) =
        (if signalingChannel w = None then sent w
         else sent w @ [\<lparr>m_to = msg_from p, m_from = v_user v,
                          m_signal = AnswerSig (AnswerOf (length (conns w)))\<rparr>]) \<and>
      tracks (handleOffer v p w) = tracks w \<and> streams (handleOffer v p w) = streams w \<and>
      localStream (handleOffer v p w) = localStream w)"
proof -
  have a: "v_localStream v = None \<longrightarrow> handleOffer v p w = w"
    by (simp add: handleOffer_def)
  have b: "conns (handleOffer v p w) =
        conns w @
        [\<lparr>senders = map Some (getTracks w ls),
          localDescription = Some (AnswerOf (length (conns w))),
          remoteDescription = Some (offer p), iceCandidates = [], isClosed = False,
          remoteUser = msg_from p, localUser = v_user v, ontrackRegisters = False\<rparr>] \<and>
      peerConnections (handleOffer v p w) =
        peerConnections w @
        [\<lparr>userId = msg_from p, connection = length (conns w), stream = None\<rparr>] \<and>
      sent (handleOffer v p w) =
        (if signalingChannel w = None then sent w
         else sent w @ [\<lparr>m_to = msg_from p, m_from = v_user v,
                          m_signal = AnswerSig (AnswerOf (length (conns w)))\<rparr>]) \<and>
      tracks (handleOffer v p w) = tracks w \<and> streams (handleOffer v p w) = streams w \<and>
      localStream (handleOffer v p w) = localStream w"
    if ls: "v_localStream v = Some ls" for ls
  proof -
    define w1 where "w1 = w\<lparr>conns := conns w @ [newConnection (msg_from p) (v_user v) False]\<rparr>"
    have l: "length (conns w) < length (conns w1)" by (simp add: w1_def)
    have g: "getTracks w1 ls = getTracks w ls" by (simp add: w1_def getTracks_def)
    have f: "fold (pcAddTrack (length (conns w))) (getTracks w ls) w1 =
       w\<lparr>conns := conns w @ [(newConnection (msg_from p) (v_user v) False)
              \<lparr>senders := map Some (getTracks w ls)\<rparr>]\<rparr>"
      by (simp add: fold_pcAddTrack [OF l]) (simp add: w1_def newConnection_def)
    show ?thesis
      using ls
      by (simp add: handleOffer_def Let_def g f w1_def [symmetric])
         (simp add: setRemoteDescription_def setLocalDescription_def send_def updConn_def
            newConnection_def)
  qed
  from a b show ?thesis by blast
qed

lemma handleOffer_answers_example:
  "handleOffer aliceView bobOffer lobby = lobby \<and>
   conns (handleOffer (render withCamera) bobOffer withCamera) ! 1 =
     \<lparr>senders = [Some 0, Some 1], localDescription = Some (AnswerOf 1),
      remoteDescription = Some (RemoteSdp 1), iceCandidates = [], isClosed = False,
      remoteUser = ''bob'', localUser = Some ''alice'', ontrackRegisters = False\<rparr> \<and>
   sent (handleOffer (render withCamera) bobOffer withCamera) ! 1 =
     \<lparr>m_to = ''bob'', m_from = Some ''alice'', m_signal = AnswerSig (AnswerOf 1)\<rparr>"
proof -
  have n: "v_localStream aliceView = None" by (simp add: aliceView_def)
  have s: "v_localStream (render withCamera) = Some 0"
    by (simp add: render_def withCamera_eq inCall_eq)
  have 1: "handleOffer aliceView bobOffer lobby = lobby"
    using handleOffer_answers [where v = aliceView and p = bobOffer and w = lobby] n by blast
  have 2: "conns (handleOffer (render withCamera) bobOffer withCamera) =
        conns withCamera @
        [\<lparr>senders = map Some (getTracks withCamera 0),
          localDescription = Some (AnswerOf (length (conns withCamera))),
          remoteDescription = Some (offer bobOffer), iceCandidates = [], isClosed = False,
          remoteUser = msg_from bobOffer, localUser = v_user (render withCamera), ontrackRegisters = False\<rparr>]"
   "sent (handleOffer (render withCamera) bobOffer withCamera) =
        (if signalingChannel withCamera = None then sent withCamera
         else sent withCamera @ [\<lparr>m_to = msg_from bobOffer, m_from = v_user (render withCamera),
                          m_signal = AnswerSig (AnswerOf (length (conns withCamera)))\<rparr>])"
    using handleOffer_answers [where v = "render withCamera" and p = bobOffer and w = withCamera] s
    by blast+
  show ?thesis
    by (simp add: 1 2) (simp add: withCamera_eq inCall_eq getTracks_def render_def bobOffer_def)
qed

text \<open>
  The handlers that answer broadcasts are those of the render in which the effect ran
  (dependencies \<open>roomId\<close> and \<open>user\<close>, line 64); \<open>startCall\<close> does not touch them.
\<close>

lemma fold_keeps: "(\<And>x s. P (f x s) = P s) \<Longrightarrow> P (fold f xs s) = P s"
  by (induction xs arbitrary: s) simp_all

lemma handlers_startCall: "handlers (startCall v g w) = handlers w"
proof (cases g)
  case False
  then show ?thesis by (simp add: startCall_def)
next
  case True
  define F :: "RoomParticipant \<Rightarrow> world \<Rightarrow> world" where "F = (\<lambda>p w'. if Some (user_id p) \<noteq> v_user v
          then createPeerConnection v (user_id p) (length (streams w)) True w' else w')"
  define w2 where "w2 = w\<lparr>tracks := tracks w @ [newTrack Audio],
     streams := streams w @ [[length (tracks w)]],
     localStream := Some (length (streams w)), isInCall := True, isMuted := False\<rparr>"
  have e: "startCall v g w = fold F (v_participants v) w2"
    using True by (simp add: startCall_def mediaStream_def F_def w2_def)
  have "handlers (fold F (v_participants v) w2) = handlers w2"
    by (rule fold_keeps) (simp add: F_def createPeerConnection_eq)
  then show ?thesis by (simp add: e w2_def)
qed

lemma mount_sees_no_stream:
  "handlers (mount r u ps) = None \<or>
   (\<exists>v. handlers (mount r u ps) = Some v \<and> v_localStream v = None)"
  by (simp add: mount_def subscribe_def render_def)


text \<open>
  C6. An offer addressed to the local participant is dropped when no local media is held
  and answered when some is. The subscribed \<open>handleOffer\<close> decides on the
  \<open>localStream\<close> of the render in which the effect ran, not on what is held. After the
  first render and \<open>Join Call\<close>, whatever the room, the user, the roster, the outcome of
  the media request and the offer, the offer changes nothing: Alice holds her audio stream
  and Bob's offer, addressed to her, gets no connection and no answer. After a
  subscription made during the call and \<open>endCall\<close> nothing is held, and Bob's offer
  gets a connection and an answer.
\<close>

theorem subscribed_handleOffer_is_stale:
  "onBroadcast OfferEv p (startCall (render (mount r u ps)) granted (mount r u ps)) =
     startCall (render (mount r u ps)) granted (mount r u ps) \<and>
   localStream inCall = Some 0 \<and> user inCall = Some (msg_to bobOffer) \<and>
   onBroadcast OfferEv bobOffer inCall = inCall \<and>
   localStream afterCall = None \<and> screenStream afterCall = None \<and>
   length (conns afterCall) = 1 \<and> length (sent afterCall) = 1 \<and>
   conns (onBroadcast OfferEv bobOffer afterCall) ! 1 =
     \<lparr>senders = [Some 0], localDescription = Some (AnswerOf 1),
      remoteDescription = Some (RemoteSdp 1), iceCandidates = [], isClosed = False,
      remoteUser = ''bob'', localUser = Some ''alice'', ontrackRegisters = False\<rparr> \<and>
   sent (onBroadcast OfferEv bobOffer afterCall) ! 1 =
     \<lparr>m_to = ''bob'', m_from = Some ''alice'', m_signal = AnswerSig (AnswerOf 1)\<rparr>"
proof -
  define W where "W = startCall (render (mount r u ps)) granted (mount r u ps)"
  have h: "handlers W = handlers (mount r u ps)"
    unfolding W_def by (rule handlers_startCall)
  have 1: "onBroadcast OfferEv p W = W"
    using mount_sees_no_stream [of r u ps]
    by (auto simp: onBroadcast_def h handleOffer_def)
  have 2: "localStream inCall = Some 0 \<and> user inCall = Some (msg_to bobOffer) \<and>
      onBroadcast OfferEv bobOffer inCall = inCall"
    by (simp add: inCall_eq onBroadcast_def aliceView_def bobOffer_def handleOffer_def)
  have 3: "localStream afterCall = None \<and> screenStream afterCall = None \<and>
   length (conns afterCall) = 1 \<and> length (sent afterCall) = 1 \<and>
   conns (onBroadcast OfferEv bobOffer afterCall) ! 1 =
     \<lparr>senders = [Some 0], localDescription = Some (AnswerOf 1),
      remoteDescription = Some (RemoteSdp 1), iceCandidates = [], isClosed = False,
      remoteUser = ''bob'', localUser = Some ''alice'', ontrackRegisters = False\<rparr> \<and>
   sent (onBroadcast OfferEv bobOffer afterCall) ! 1 =
     \<lparr>m_to = ''bob'', m_from = Some ''alice'', m_signal = AnswerSig (AnswerOf 1)\<rparr>"
    by (simp add: afterCall_eq switched_eq inCall_eq aliceView_def onBroadcast_def
        handleOffer_def bobOffer_def browser_defs Let_def)
  from 1 2 3 show ?thesis by (simp add: W_def)
qed

section \<open>Screen sharing\<close>

text \<open>
  C7. In a well-formed world with the camera on (its track the first video track of the
  local stream) and no screen share, toggling the share on creates no session and no
  connection; the capture's video track is the new track \<open>length (tracks w)\<close>, and in
  every session whose connection has a video sender that sender, at its position, now
  carries it. Toggling off again leaves the sessions as they were and puts the camera
  track on that same sender; when the sender carried the camera track before, every
  connection is back to what it was.
\<close>

theorem screen_share_round_trip:
  assumes wf: "wellFormed w"
    and von: "isVideoOn w" and soff: "\<not> isScreenSharing w"
    and ls: "localStream w = Some ls"
    and cam: "firstOf (getVideoTracks w ls) = Some cam"
  shows "peerConnections (clickShare (Some a) w) = peerConnections w \<and>
    length (conns (clickShare (Some a) w)) = length (conns w) \<and>
    isScreenSharing (clickShare (Some a) w) \<and>
    screenStream (clickShare (Some a) w) = Some (length (streams w)) \<and>
    firstOf (getVideoTracks (clickShare (Some a) w) (length (streams w))) =
      Some (length (tracks w)) \<and>
    peerConnections (clickShare r (clickShare (Some a) w)) = peerConnections w \<and>
    length (conns (clickShare r (clickShare (Some a) w))) = length (conns w) \<and>
    \<not> isScreenSharing (clickShare r (clickShare (Some a) w)) \<and>
    screenStream (clickShare r (clickShare (Some a) w)) = None \<and>
    (\<forall>pc \<in> set (peerConnections w). \<forall>i. videoSender w (connection pc) = Some i \<longrightarrow>
       senders (conns (clickShare (Some a) w) ! connection pc) =
         (senders (conns w ! connection pc))[i := Some (length (tracks w))] \<and>
       senders (conns (clickShare r (clickShare (Some a) w)) ! connection pc) =
         (senders (conns w ! connection pc))[i := Some cam]) \<and>
    ((\<forall>pc \<in> set (peerConnections w). \<exists>i. videoSender w (connection pc) = Some i \<and>
         senders (conns w ! connection pc) ! i = Some cam) \<longrightarrow>
       conns (clickShare r (clickShare (Some a) w)) = conns w)"
proof -
  define n where "n = length (tracks w)"
  define s where "s = length (streams w)"
  define cs where "cs = map connection (peerConnections w)"
  define new where "new = map newTrack (Video # (if a then [Audio] else []))"
  define T0 where "T0 = tracks w @ new"
  define T1 where "T1 = T0[n := (T0 ! n)\<lparr>onended := True\<rparr>]"
  define T2 where "T2 = applyAt (\<lambda>x. x\<lparr>ended := True\<rparr>) [n ..< n + length new] T1"
  define F2 where "F2 = (\<lambda>x::RTCPeerConnection. x\<lparr>senders := swapS T0 n (senders x)\<rparr>)"
  define F3 where "F3 = (\<lambda>x::RTCPeerConnection. x\<lparr>senders := restoreS T2 cam (senders x)\<rparr>)"
  define C1 where "C1 = applyAt F2 cs (conns w)"
  define C2 where "C2 = applyAt F3 cs C1"
  define wOn where "wOn = w\<lparr>tracks := T1, streams := streams w @ [[n ..< n + length new]],
    screenStream := Some s, conns := C1, isScreenSharing := True\<rparr>"
  define wOff where "wOff = wOn\<lparr>tracks := T2, screenStream := None, conns := C2,
    isScreenSharing := False\<rparr>"
  have kn: "trackKind T0 n = Some Video"
    by (simp add: T0_def new_def n_def trackKind_def newTrack_def nth_append)
  have k01: "map kind T1 = map kind T0"
    using map_kind_applyAt [where f = "\<lambda>x. x\<lparr>onended := True\<rparr>" and ks = "[n]" and ts = T0]
    by (simp add: T1_def)
  have k12: "map kind T2 = map kind T1"
    unfolding T2_def by (rule map_kind_applyAt) simp
  have k02: "map kind T2 = map kind T0" using k01 k12 by simp
  have kold: "trackKind T0 t = trackKind (tracks w) t" if "t < n" for t
    using that by (simp add: T0_def n_def trackKind_append)
  have kn2: "trackKind T2 n = Some Video" using kn trackKind_cong [OF k02] by simp
  have fv0: "findVideo T0 ss = findVideo (tracks w) ss" if "sendersInRange (tracks w) ss" for ss
    using that by (simp add: T0_def findVideo_extend)
  have on: "toggleScreenShare (render w) (Some a) w = wOn"
    using toggleOn_eq [OF soff, of a]
    by (simp add: wOn_def T1_def T0_def new_def n_def s_def C1_def F2_def cs_def nth_append)
  have lsr: "ls < length (streams w)" using wf ls by (simp add: wellFormed_def)
  have gs: "getTracks wOn s = [n ..< n + length new]"
    by (simp add: getTracks_def wOn_def s_def)
  have gl: "getTracks wOn ls = getTracks w ls"
    using lsr by (simp add: getTracks_def wOn_def nth_append)
  have old: "t < n" if "t \<in> set (getTracks w ls)" for t
    using wellFormed_stream [OF wf lsr that] by (simp add: n_def)
  have k2old: "trackKind T2 t = trackKind (tracks w) t" if "t < n" for t
    using trackKind_cong [OF k02, of t] kold [OF that] by simp
  have "filter (\<lambda>t. trackKind T2 t = Some Video) (getTracks w ls) = getVideoTracks w ls"
    unfolding getVideoTracks_def by (rule filter_cong) (simp_all add: old k2old)
  then have c2: "firstOf (filter (\<lambda>t. trackKind T2 t = Some Video) (getTracks w ls)) = Some cam"
    using cam by simp
  have off: "toggleScreenShare (render wOn) r wOn = wOff"
    using toggleOff_eq [where w = wOn and s = s and ls = ls and cam = cam and r = r]
      c2 ls von
    by (simp add: gs gl) (simp add: wOn_def wOff_def T2_def C2_def F3_def cs_def)
  have camv: "cam \<in> set (getVideoTracks w ls)"
    using cam by (simp add: firstOf_def split: list.splits)
  then have "cam \<in> set (getTracks w ls)" "trackKind (tracks w) cam = Some Video"
    by (simp_all add: getVideoTracks_def)
  then have kc: "trackKind T2 cam = Some Video"
    using k2old [of cam] old [of cam] by simp
  have idem2: "F2 (F2 x) = F2 x" for x
    by (simp add: F2_def swapS_idem [OF kn])
  have idem3: "F3 (F3 x) = F3 x" for x
    by (simp add: F3_def restoreS_idem [OF kc])
  have lC1: "length C1 = length (conns w)" by (simp add: C1_def)
  have nC1: "C1 ! c = (if c \<in> set cs then F2 (conns w ! c) else conns w ! c)"
    if "c < length (conns w)" for c
    unfolding C1_def using idem2 that by (rule nth_applyAt)
  have nC2: "C2 ! c = (if c \<in> set cs then F3 (C1 ! c) else C1 ! c)"
    if "c < length (conns w)" for c
    unfolding C2_def using idem3 that [folded lC1] by (rule nth_applyAt)
  have sess: "senders (C1 ! connection pc) = (senders (conns w ! connection pc))[i := Some n] \<and>
      senders (C2 ! connection pc) = (senders (conns w ! connection pc))[i := Some cam]"
    if pc: "pc \<in> set (peerConnections w)" and i: "videoSender w (connection pc) = Some i"
    for pc i
  proof -
    define ss where "ss = senders (conns w ! connection pc)"
    have c: "connection pc < length (conns w)" using wf pc by (rule wellFormed_session)
    have m: "connection pc \<in> set cs" using pc by (simp add: cs_def)
    have r: "sendersInRange (tracks w) ss"
      unfolding ss_def using wf c by (rule wellFormed_senders)
    have f: "findVideo (tracks w) ss = Some i"
      using i c by (simp add: videoSender_def ss_def)
    have f0: "findVideo T0 ss = Some i" using fv0 [OF r] f by simp
    have f2: "findVideo T2 (ss[i := Some n]) = Some i"
      using findVideo_cong [OF k02, of ss] f0 kn2 by (simp add: findVideo_update)
    have 1: "senders (C1 ! connection pc) = ss[i := Some n]"
      using f0 by (simp add: nC1 [OF c] m F2_def swapS_def ss_def)
    have 2: "senders (C2 ! connection pc) = ss[i := Some cam]"
      using f2 by (simp add: nC2 [OF c] m F3_def restoreS_def 1)
    from 1 2 show ?thesis by (simp add: ss_def)
  qed
  have restored: "C2 = conns w"
    if all: "\<forall>pc \<in> set (peerConnections w). \<exists>i. videoSender w (connection pc) = Some i \<and>
         senders (conns w ! connection pc) ! i = Some cam"
  proof (rule nth_equalityI)
    show "length C2 = length (conns w)" by (simp add: C2_def lC1)
  next
    fix c assume "c < length C2"
    then have c: "c < length (conns w)" by (simp add: C2_def lC1)
    show "C2 ! c = conns w ! c"
    proof (cases "c \<in> set cs")
      case False
      then show ?thesis by (simp add: nC2 [OF c] nC1 [OF c])
    next
      case True
      then obtain pc where pc: "pc \<in> set (peerConnections w)" and e: "c = connection pc"
        by (auto simp: cs_def)
      from all pc obtain i where i: "videoSender w (connection pc) = Some i"
        and h: "senders (conns w ! connection pc) ! i = Some cam" by blast
      have "senders (C2 ! c) = (senders (conns w ! c))[i := Some cam]"
        using sess [OF pc i] by (simp add: e)
      also have "\<dots> = senders (conns w ! c)"
        using list_update_id [of "senders (conns w ! c)" i] h by (simp add: e)
      finally have "senders (C2 ! c) = senders (conns w ! c)" .
      moreover have "C2 ! c = (conns w ! c)\<lparr>senders := senders (C2 ! c)\<rparr>"
        using True by (simp add: nC2 [OF c] nC1 [OF c] F2_def F3_def)
      ultimately show ?thesis by simp
    qed
  qed
  have k1: "trackKind T1 t = trackKind T0 t" for t
    using k01 by (rule trackKind_cong)
  have "getVideoTracks wOn s = filter (\<lambda>t. trackKind T0 t = Some Video) [n ..< n + length new]"
    unfolding getVideoTracks_def gs by (simp add: wOn_def k1)
  also have "\<dots> = [n]"
    by (cases a)
       (simp_all add: new_def T0_def trackKind_def n_def newTrack_def nth_append upt_rec)
  finally have scr: "firstOf (getVideoTracks wOn s) = Some n"
    by (simp add: firstOf_def)
  have fOn: "peerConnections wOn = peerConnections w" "length (conns wOn) = length (conns w)"
    "isScreenSharing wOn" "screenStream wOn = Some s" "conns wOn = C1"
    by (simp_all add: wOn_def lC1)
  have fOff: "peerConnections wOff = peerConnections w" "length (conns wOff) = length (conns w)"
    "\<not> isScreenSharing wOff" "screenStream wOff = None" "conns wOff = C2"
    by (simp_all add: wOff_def wOn_def C2_def lC1)
  show ?thesis
    unfolding on off using sess restored scr
    by (simp add: fOn fOff lC1 C2_def n_def [symmetric] s_def [symmetric])
qed

theorem screen_share_round_trip_witness:
  "wellFormed withCamera \<and> isVideoOn withCamera \<and> \<not> isScreenSharing withCamera \<and>
   localStream withCamera = Some 0 \<and> firstOf (getVideoTracks withCamera 0) = Some 1 \<and>
   peerConnections withCamera = [\<lparr>userId = ''bob'', connection = 0, stream = None\<rparr>] \<and>
   senders (conns withCamera ! 0) = [Some 0, Some 1] \<and>
   peerConnections sharing = peerConnections withCamera \<and>
   senders (conns sharing ! 0) = [Some 0, Some 2] \<and>
   firstOf (getVideoTracks sharing 2) = Some 2 \<and>
   senders (conns (toggleScreenShare (render sharing) None sharing) ! 0) = [Some 0, Some 1] \<and>
   conns (toggleScreenShare (render sharing) None sharing) = conns withCamera"
proof -
  have wf: "wellFormed withCamera"
    by (simp add: wellFormed_def sendersInRange_def withCamera_eq inCall_eq)
  have von: "isVideoOn withCamera" and soff: "\<not> isScreenSharing withCamera"
    and ls: "localStream withCamera = Some 0"
    and pcs: "peerConnections withCamera = [\<lparr>userId = ''bob'', connection = 0, stream = None\<rparr>]"
    and sn: "senders (conns withCamera ! 0) = [Some 0, Some 1]"
    and lt: "length (tracks withCamera) = 2" and lst: "length (streams withCamera) = 2"
    by (simp_all add: withCamera_eq inCall_eq)
  have cam: "firstOf (getVideoTracks withCamera 0) = Some 1"
    by (simp add: firstOf_def getVideoTracks_def getTracks_def trackKind_def withCamera_eq
        inCall_eq newTrack_def)
  have vs: "videoSender withCamera 0 = Some 1"
    by (simp add: videoSender_def trackKind_def withCamera_eq inCall_eq newTrack_def)
  note t = screen_share_round_trip [OF wf von soff ls cam, of True None, folded sharing_def]
  from t wf von soff ls cam pcs sn vs show ?thesis
    by (simp add: lt lst)
qed

text \<open>
  C8. Stopping the share in the browser's own interface should leave the state an
  explicit toggle-off leaves. With camera and share on and one session, the explicit
  toggle-off puts the camera track 1 back on the video sender and stops both tracks of
  the capture; the \<open>onended\<close> callback clears the flag and the stream only: the sender
  keeps the ended screen track 2 and the capture's audio track 3 stays live.
\<close>

theorem browser_stop_differs_from_toggle_off:
  "map senders (conns (clickShare None sharing)) = [[Some 0, Some 1]] \<and>
   map senders (conns (trackEndedByBrowser 2 sharing)) = [[Some 0, Some 2]] \<and>
   map ended (tracks (clickShare None sharing)) = [False, False, True, True] \<and>
   map ended (tracks (trackEndedByBrowser 2 sharing)) = [False, False, True, False] \<and>
   isScreenSharing (trackEndedByBrowser 2 sharing) = False \<and>
   screenStream (trackEndedByBrowser 2 sharing) = None \<and>
   isVideoOn (trackEndedByBrowser 2 sharing) = True \<and>
   trackEndedByBrowser 2 sharing \<noteq> clickShare None sharing"
proof -
  have 1: "map senders (conns (clickShare None sharing)) = [[Some 0, Some 1]]"
    and 2: "map senders (conns (trackEndedByBrowser 2 sharing)) = [[Some 0, Some 2]]"
    and 3: "map ended (tracks (clickShare None sharing)) = [False, False, True, True] \<and>
      map ended (tracks (trackEndedByBrowser 2 sharing)) = [False, False, True, False] \<and>
      isScreenSharing (trackEndedByBrowser 2 sharing) = False \<and>
      screenStream (trackEndedByBrowser 2 sharing) = None \<and>
      isVideoOn (trackEndedByBrowser 2 sharing) = True"
    by (simp_all add: sharing_eq withCamera_eq inCall_eq render_def toggleScreenShare_def
        restore_def firstOf_def trackEndedByBrowser_def screenEnded_def browser_defs Let_def)
  have "trackEndedByBrowser 2 sharing \<noteq> clickShare None sharing"
  proof
    assume "trackEndedByBrowser 2 sharing = clickShare None sharing"
    then have "map senders (conns (trackEndedByBrowser 2 sharing)) =
        map senders (conns (clickShare None sharing))" by simp
    with 1 2 show False by simp
  qed
  with 1 2 3 show ?thesis by simp
qed

section \<open>Envelopes that do not apply\<close>

text \<open>
  What holds of the boundary and of the two handlers. A broadcast whose \<open>to\<close> is not the
  subscribed user's id, or that arrives while nothing is subscribed, leaves the world
  unchanged whatever its event. An answer or a candidate whose sender has no entry in the
  session list the handler sees leaves the world unchanged as well.
\<close>

lemma inapplicable_envelope_ignored:
  "(case handlers w of None \<Rightarrow> onBroadcast ev p w = w
    | Some v \<Rightarrow> Some (msg_to p) \<noteq> v_user v \<longrightarrow> onBroadcast ev p w = w) \<and>
   ((\<forall>pc \<in> set (v_peerConnections v'). userId pc \<noteq> msg_from p) \<longrightarrow>
      handleAnswer v' p w = w \<and> handleIceCandidate v' p w = w \<and>
      (handlers w = Some v' \<longrightarrow>
         onBroadcast AnswerEv p w = w \<and> onBroadcast IceCandidateEv p w = w))"
proof -
  have a: "case handlers w of None \<Rightarrow> onBroadcast ev p w = w
    | Some v \<Rightarrow> Some (msg_to p) \<noteq> v_user v \<longrightarrow> onBroadcast ev p w = w"
    by (simp add: onBroadcast_def split: option.splits)
  have b: "handleAnswer v' p w = w \<and> handleIceCandidate v' p w = w \<and>
      (handlers w = Some v' \<longrightarrow>
         onBroadcast AnswerEv p w = w \<and> onBroadcast IceCandidateEv p w = w)"
    if "\<forall>pc \<in> set (v_peerConnections v'). userId pc \<noteq> msg_from p"
  proof -
    from that have f: "find (\<lambda>pc. userId pc = msg_from p) (v_peerConnections v') = None"
      by (simp add: find_None_conv)
    then show ?thesis
      by (simp add: handleAnswer_def handleIceCandidate_def onBroadcast_def)
  qed
  from a b show ?thesis by blast
qed

lemma inapplicable_envelope_ignored_example:
  "onBroadcast OfferEv toCarol inCall = inCall \<and>
   handleAnswer (render inCall) fromDave inCall = inCall \<and>
   handleIceCandidate (render inCall) fromDave inCall = inCall \<and>
   onBroadcast AnswerEv fromDave (subscribe inCall) = subscribe inCall \<and>
   onBroadcast IceCandidateEv fromDave (subscribe inCall) = subscribe inCall"
proof -
  have h: "handlers inCall = Some aliceView" "Some (msg_to toCarol) \<noteq> v_user aliceView"
    by (simp_all add: inCall_eq aliceView_def toCarol_def)
  have 1: "onBroadcast OfferEv toCarol inCall = inCall"
    using inapplicable_envelope_ignored [where w = inCall and ev = OfferEv and p = toCarol] h by simp
  have s: "handlers (subscribe inCall) = Some (render inCall)"
    by (simp add: subscribe_def inCall_eq render_def)
  have n: "\<forall>pc \<in> set (v_peerConnections (render inCall)). userId pc \<noteq> msg_from fromDave"
    by (simp add: inCall_eq render_def fromDave_def)
  have 2: "handleAnswer (render inCall) fromDave inCall = inCall"
    "handleIceCandidate (render inCall) fromDave inCall = inCall"
    using inapplicable_envelope_ignored [where w = inCall and p = fromDave and v' = "render inCall"] n by blast+
  have r: "render (subscribe inCall) = render inCall"
    by (simp add: subscribe_def inCall_eq render_def)
  have 3: "onBroadcast AnswerEv fromDave (subscribe inCall) = subscribe inCall"
    "onBroadcast IceCandidateEv fromDave (subscribe inCall) = subscribe inCall"
    using inapplicable_envelope_ignored [where w = "subscribe inCall" and p = fromDave and v' = "render inCall"] n s
    by blast+
  from 1 2 3 show ?thesis by simp
qed

text \<open>
  C9. An answer or a candidate whose sender has no session is a no-op: no session is
  created and no existing session or connection is modified. The subscribed handlers
  search the session list of the render in which the effect ran, not the current one:
  after Alice has switched rooms during her call with Bob and hung up, her session list
  is empty, and an answer or a candidate from Bob, addressed to her, still reaches the
  closed connection 0 of Bob's former entry and changes it.
\<close>

theorem stale_session_list_is_consulted:
  "peerConnections afterCall = [] \<and>
   user afterCall = Some (msg_to bobAnswer) \<and>
   remoteDescription (conns afterCall ! 0) = None \<and>
   remoteDescription (conns (onBroadcast AnswerEv bobAnswer afterCall) ! 0) = Some (RemoteSdp 9) \<and>
   iceCandidates (conns afterCall ! 0) = [] \<and>
   iceCandidates (conns (onBroadcast IceCandidateEv (bobCandidate (Some 3)) afterCall) ! 0) = [3] \<and>
   onBroadcast AnswerEv bobAnswer afterCall \<noteq> afterCall \<and>
   onBroadcast IceCandidateEv (bobCandidate (Some 3)) afterCall \<noteq> afterCall"
proof -
  have 1: "peerConnections afterCall = [] \<and>
   user afterCall = Some (msg_to bobAnswer) \<and>
   remoteDescription (conns afterCall ! 0) = None \<and>
   remoteDescription (conns (onBroadcast AnswerEv bobAnswer afterCall) ! 0) = Some (RemoteSdp 9) \<and>
   iceCandidates (conns afterCall ! 0) = [] \<and>
   iceCandidates (conns (onBroadcast IceCandidateEv (bobCandidate (Some 3)) afterCall) ! 0) = [3]"
    by (simp add: afterCall_eq switched_eq inCall_eq aliceView_def onBroadcast_def
        handleAnswer_def handleIceCandidate_def bobAnswer_def bobCandidate_def browser_defs)
  have 2: "onBroadcast AnswerEv bobAnswer afterCall \<noteq> afterCall"
  proof
    assume "onBroadcast AnswerEv bobAnswer afterCall = afterCall"
    then have "remoteDescription (conns (onBroadcast AnswerEv bobAnswer afterCall) ! 0) =
        remoteDescription (conns afterCall ! 0)" by simp
    with 1 show False by auto
  qed
  have 3: "onBroadcast IceCandidateEv (bobCandidate (Some 3)) afterCall \<noteq> afterCall"
  proof
    assume "onBroadcast IceCandidateEv (bobCandidate (Some 3)) afterCall = afterCall"
    then have "iceCandidates (conns (onBroadcast IceCandidateEv (bobCandidate (Some 3)) afterCall) ! 0) =
        iceCandidates (conns afterCall ! 0)" by simp
    with 1 show False by auto
  qed
  from 1 2 3 show ?thesis by simp
qed

section \<open>Mute\<close>

text \<open>
  C10. \<open>toggleMute\<close> leaves the session list, every connection (senders, descriptions,
  candidates), the messages sent, the streams and the other state cells as they are. With
  no local stream, or a local stream without an audio track, it changes nothing at all;
  otherwise the only track that changes is the first audio track of the local stream,
  whose \<open>enabled\<close> flag is flipped, and \<open>isMuted\<close> becomes the negation of the new flag.
\<close>

theorem toggleMute_frame:
  "peerConnections (toggleMute v w) = peerConnections w \<and>
   conns (toggleMute v w) = conns w \<and>
   sent (toggleMute v w) = sent w \<and>
   streams (toggleMute v w) = streams w \<and>
   localStream (toggleMute v w) = localStream w \<and>
   screenStream (toggleMute v w) = screenStream w \<and>
   isInCall (toggleMute v w) = isInCall w \<and>
   isVideoOn (toggleMute v w) = isVideoOn w \<and>
   isScreenSharing (toggleMute v w) = isScreenSharing w \<and>
   (case v_localStream v of None \<Rightarrow> toggleMute v w = w
    | Some s \<Rightarrow>
        (case getAudioTracks w s of [] \<Rightarrow> toggleMute v w = w
         | a # _ \<Rightarrow>
             tracks (toggleMute v w) =
               (tracks w)[a := (tracks w ! a)\<lparr>enabled := \<not> enabled (tracks w ! a)\<rparr>] \<and>
             isMuted (toggleMute v w) = (\<not> enabled (tracks (toggleMute v w) ! a)) \<and>
             isMuted (toggleMute v w) = enabled (tracks w ! a)))"
  by (auto simp: toggleMute_def updTrack_def Let_def dest: audio_in_range
      split: option.splits list.splits)

end
